(* ===== verification/Prelude.thy ===== *)
theory Prelude
  imports Complex_Main "HOL-Library.State_Monad" "HOL-Library.Stream"
begin

text \<open>
  Shared vocabulary of the development of the vector practice app (src/app.js):
  the type of world points, the collection of evaluation rules for the model of
  JavaScript numbers, and generic lemmas on floors and decimal scaling that the
  sampler, the answer generator and the graph renderer all use.
\<close>

named_theorems js_simps "evaluation rules of the JavaScript Number model on finite values"

text \<open>A JavaScript array \<open>[x, y]\<close> of finite numbers: a point or a vector of the plane.\<close>

type_synonym point = "real \<times> real"

text \<open>The source of \<open>Math.random()\<close>: the stream of values it returns, each in \<open>[0, 1)\<close>.\<close>

type_synonym rng = "real stream"

definition unit_interval :: "real \<Rightarrow> bool" where
  "unit_interval u \<longleftrightarrow> 0 \<le> u \<and> u < 1"

definition valid_rng :: "rng \<Rightarrow> bool" where
  "valid_rng s \<longleftrightarrow> (\<forall>u \<in> sset s. unit_interval u)"

subsection \<open>Floors of scaled random values\<close>

lemma floor_mult_unit_bounds:
  fixes n :: int
  assumes "unit_interval u" and "0 < n"
  shows "0 \<le> \<lfloor>u * of_int n\<rfloor> \<and> \<lfloor>u * of_int n\<rfloor> < n"
proof
  from assms show "0 \<le> \<lfloor>u * of_int n\<rfloor>"
    by (simp add: unit_interval_def)
next
  from assms have "u * of_int n < 1 * of_int n"
    by (intro mult_strict_right_mono) (simp_all add: unit_interval_def)
  then show "\<lfloor>u * of_int n\<rfloor> < n"
    by (simp add: floor_less_iff)
qed

lemma floor_mult_unit_eq_iff:
  fixes n k :: int
  assumes "0 < n"
  shows "\<lfloor>u * of_int n\<rfloor> = k \<longleftrightarrow> of_int k / of_int n \<le> u \<and> u < (of_int k + 1) / of_int n"
proof -
  have "\<lfloor>u * of_int n\<rfloor> = k \<longleftrightarrow> of_int k \<le> u * of_int n \<and> u * of_int n < of_int k + 1"
    by (simp add: floor_eq_iff)
  also have "\<dots> \<longleftrightarrow> of_int k / of_int n \<le> u \<and> u < (of_int k + 1) / of_int n"
    using assms by (simp add: divide_le_eq less_divide_eq)
  finally show ?thesis .
qed

lemma abs_of_int_le: "\<bar>k\<bar> \<le> n \<Longrightarrow> \<bar>real_of_int k\<bar> \<le> real_of_int n"
  by (metis of_int_abs of_int_le_iff)

lemma valid_rng_shd [intro]: "valid_rng s \<Longrightarrow> unit_interval (shd s)"
  by (simp add: valid_rng_def shd_sset)

lemma valid_rng_stl [intro]: "valid_rng s \<Longrightarrow> valid_rng (stl s)"
  by (simp add: valid_rng_def stl_sset)

lemma valid_rng_sdrop [intro]: "valid_rng s \<Longrightarrow> valid_rng (sdrop n s)"
  by (induction n arbitrary: s) auto

lemma valid_rng_Cons [simp]: "valid_rng (u ## s) \<longleftrightarrow> unit_interval u \<and> valid_rng s"
  by (simp add: valid_rng_def)

lemma valid_rng_sconst [simp]: "valid_rng (sconst u) \<longleftrightarrow> unit_interval u"
  by (simp add: valid_rng_def)

end
