(* ===== verification/JsNum.thy ===== *)
theory JsNum
  imports Prelude
begin

text \<open>
  The ECMAScript Number operations that src/app.js applies: arithmetic, \<open>Math.abs\<close>,
  \<open>Math.floor\<close>, \<open>Math.ceil\<close>, \<open>Math.round\<close>, \<open><=\<close> and \<open>Number.isNaN\<close>.
  A Number is a finite value, \<open>NaN\<close>, or one of the two infinities. Finite values are
  exact reals: rounding to the nearest double, overflow to infinity and the sign of
  zero are not modelled (a zero is \<open>+0\<close>, which is what the subtraction \<open>x - x\<close>
  produces, so a division by a difference of equal numbers is modelled exactly).
  Everything IEEE arithmetic does with \<open>NaN\<close> and the infinities is written out,
  because the program divides by quantities that may be zero and compares numbers
  parsed from user input.
\<close>

datatype jsnum = Num real | NaN | PInf | NInf

fun is_nan :: "jsnum \<Rightarrow> bool" where
  "is_nan NaN = True"
| "is_nan _ = False"

fun is_finite :: "jsnum \<Rightarrow> bool" where
  "is_finite (Num _) = True"
| "is_finite _ = False"

text \<open>The infinity (or \<open>NaN\<close>) carrying a given sign: the result of an overflowing product or quotient.\<close>

definition inf_of_sign :: "real \<Rightarrow> jsnum" where
  "inf_of_sign s = (if 0 < s then PInf else if s < 0 then NInf else NaN)"

fun js_sgn :: "jsnum \<Rightarrow> real" where
  "js_sgn (Num a) = sgn a"
| "js_sgn PInf = 1"
| "js_sgn NInf = -1"
| "js_sgn NaN = 0"

fun js_neg :: "jsnum \<Rightarrow> jsnum" where
  "js_neg (Num a) = Num (- a)"
| "js_neg NaN = NaN"
| "js_neg PInf = NInf"
| "js_neg NInf = PInf"

fun js_add :: "jsnum \<Rightarrow> jsnum \<Rightarrow> jsnum" where
  "js_add (Num a) (Num b) = Num (a + b)"
| "js_add NaN _ = NaN"
| "js_add _ NaN = NaN"
| "js_add PInf NInf = NaN"
| "js_add NInf PInf = NaN"
| "js_add PInf _ = PInf"
| "js_add NInf _ = NInf"
| "js_add _ PInf = PInf"
| "js_add _ NInf = NInf"

definition js_sub :: "jsnum \<Rightarrow> jsnum \<Rightarrow> jsnum" where
  "js_sub a b = js_add a (js_neg b)"

fun js_mul :: "jsnum \<Rightarrow> jsnum \<Rightarrow> jsnum" where
  "js_mul (Num a) (Num b) = Num (a * b)"
| "js_mul NaN _ = NaN"
| "js_mul _ NaN = NaN"
| "js_mul x y = inf_of_sign (js_sgn x * js_sgn y)"

text \<open>
  Division: a finite value over \<open>+0\<close> is an infinity of the dividend's sign (\<open>NaN\<close>
  for \<open>0/0\<close>); a finite value over an infinity is zero; an infinity over a finite
  value keeps its sign (flipped by a negative divisor); infinity over infinity is \<open>NaN\<close>.
\<close>

fun js_div :: "jsnum \<Rightarrow> jsnum \<Rightarrow> jsnum" where
  "js_div (Num a) (Num b) = (if b = 0 then inf_of_sign a else Num (a / b))"
| "js_div NaN _ = NaN"
| "js_div _ NaN = NaN"
| "js_div (Num _) _ = Num 0"
| "js_div x (Num b) = inf_of_sign (js_sgn x * (if b = 0 then 1 else sgn b))"
| "js_div _ _ = NaN"

fun js_abs :: "jsnum \<Rightarrow> jsnum" where
  "js_abs (Num a) = Num \<bar>a\<bar>"
| "js_abs NaN = NaN"
| "js_abs _ = PInf"

text \<open>The relational operator \<open><=\<close>: false whenever an operand is \<open>NaN\<close>.\<close>

fun js_le :: "jsnum \<Rightarrow> jsnum \<Rightarrow> bool" where
  "js_le NaN _ = False"
| "js_le _ NaN = False"
| "js_le NInf _ = True"
| "js_le _ PInf = True"
| "js_le PInf _ = False"
| "js_le _ NInf = False"
| "js_le (Num a) (Num b) = (a \<le> b)"

text \<open>\<open>Math.floor\<close>, \<open>Math.ceil\<close> and \<open>Math.round\<close> (the nearest integer, ties towards \<open>+\<infinity>\<close>).\<close>

fun js_floor :: "jsnum \<Rightarrow> jsnum" where
  "js_floor (Num a) = Num (of_int \<lfloor>a\<rfloor>)"
| "js_floor x = x"

fun js_ceil :: "jsnum \<Rightarrow> jsnum" where
  "js_ceil (Num a) = Num (of_int \<lceil>a\<rceil>)"
| "js_ceil x = x"

fun js_round :: "jsnum \<Rightarrow> jsnum" where
  "js_round (Num a) = Num (of_int \<lfloor>a + 1 / 2\<rfloor>)"
| "js_round x = x"

text \<open>\<open>Math.hypot(a, b)\<close>: an infinite operand wins over \<open>NaN\<close>.\<close>

fun js_hypot :: "jsnum \<Rightarrow> jsnum \<Rightarrow> jsnum" where
  "js_hypot (Num a) (Num b) = Num (sqrt (a\<^sup>2 + b\<^sup>2))"
| "js_hypot PInf _ = PInf"
| "js_hypot NInf _ = PInf"
| "js_hypot _ PInf = PInf"
| "js_hypot _ NInf = PInf"
| "js_hypot _ _ = NaN"

text \<open>\<open>x || d\<close> on a Number: \<open>0\<close> and \<open>NaN\<close> are falsy.\<close>

definition js_or :: "jsnum \<Rightarrow> jsnum \<Rightarrow> jsnum" where
  "js_or x d = (if x = Num 0 \<or> x = NaN then d else x)"

text \<open>
  \<open>Number(x.toFixed(k))\<close> (and \<open>parseFloat(x.toFixed(k))\<close>) for a finite \<open>x\<close>:
  \<open>toFixed\<close> takes the sign apart, picks the integer \<open>n\<close> with \<open>n / 10^k\<close> nearest
  to \<open>|x|\<close> (the larger one on a tie) and prints it with \<open>k\<close> decimals; reading the
  text back gives \<open>\<plusminus>n / 10^k\<close>. From \<open>10^21\<close> on, \<open>toFixed\<close> prints \<open>x\<close> itself.
\<close>

definition to_fixed :: "nat \<Rightarrow> real \<Rightarrow> real" where
  "to_fixed k x =
     (if 10 ^ 21 \<le> \<bar>x\<bar> then x
      else sgn x * of_int \<lfloor>\<bar>x\<bar> * 10 ^ k + 1 / 2\<rfloor> / 10 ^ k)"

subsection \<open>Evaluation on finite values\<close>

lemma js_sub_Num [simp, js_simps]: "js_sub (Num a) (Num b) = Num (a - b)"
  by (simp add: js_sub_def)

lemma js_div_Num_nonzero [simp, js_simps]: "b \<noteq> 0 \<Longrightarrow> js_div (Num a) (Num b) = Num (a / b)"
  by simp

lemmas js_finite_ops [js_simps] =
  js_add.simps(1) js_mul.simps(1) js_abs.simps(1) js_le.simps(7) js_neg.simps(1)
  js_floor.simps(1) js_ceil.simps(1) js_round.simps(1)

lemma inf_of_sign_not_finite [simp]: "\<not> is_finite (inf_of_sign s)"
  by (simp add: inf_of_sign_def)

lemma js_div_Num_zero_not_finite: "\<not> is_finite (js_div (Num a) (Num 0))"
  by simp

text \<open>Any operation with a non-finite operand has a non-finite result.\<close>

lemma js_add_finite_iff [simp]: "is_finite (js_add a b) \<longleftrightarrow> is_finite a \<and> is_finite b"
  by (cases a; cases b) simp_all

lemma js_neg_finite_iff [simp]: "is_finite (js_neg a) \<longleftrightarrow> is_finite a"
  by (cases a) simp_all

lemma js_sub_finite_iff [simp]: "is_finite (js_sub a b) \<longleftrightarrow> is_finite a \<and> is_finite b"
  by (simp add: js_sub_def)

lemma js_mul_finite_iff [simp]: "is_finite (js_mul a b) \<longleftrightarrow> is_finite a \<and> is_finite b"
  by (cases a; cases b) simp_all

lemma js_abs_finite_iff [simp]: "is_finite (js_abs a) \<longleftrightarrow> is_finite a"
  by (cases a) simp_all

lemma is_finite_iff: "is_finite x \<longleftrightarrow> (\<exists>a. x = Num a)"
  by (cases x) simp_all

lemma js_abs_sub_commute: "js_abs (js_sub a b) = js_abs (js_sub b a)"
  by (cases a; cases b) (simp_all add: js_sub_def abs_minus_commute)

subsection \<open>Rounding to a number of decimals\<close>

lemma to_fixed_int [simp]:
  fixes n :: int
  shows "to_fixed k (of_int n) = of_int n"
proof (cases "10 ^ 21 \<le> \<bar>real_of_int n\<bar>")
  case False
  have "\<lfloor>\<bar>real_of_int n\<bar> * 10 ^ k + 1 / 2\<rfloor> = \<bar>n\<bar> * 10 ^ k"
    by (simp add: floor_eq_iff)
  with False show ?thesis
    by (simp add: to_fixed_def abs_mult sgn_mult_abs)
qed (simp add: to_fixed_def)

lemma to_fixed_exact: "to_fixed k (of_int m / 10 ^ k) = of_int m / 10 ^ k"
proof (cases "10 ^ 21 \<le> \<bar>real_of_int m / 10 ^ k\<bar>")
  case False
  have p: "(0::real) < 10 ^ k" by simp
  have "\<bar>real_of_int m / 10 ^ k\<bar> * 10 ^ k = \<bar>real_of_int m\<bar>"
    using p by (simp add: abs_divide)
  then have "\<lfloor>\<bar>real_of_int m / 10 ^ k\<bar> * 10 ^ k + 1 / 2\<rfloor> = \<bar>m\<bar>"
    by (simp only:) (simp add: floor_eq_iff)
  moreover have "sgn (real_of_int m / 10 ^ k) = sgn (real_of_int m)"
    using p by (simp add: sgn_divide)
  ultimately show ?thesis
    using False by (simp add: to_fixed_def sgn_mult_abs)
qed (simp add: to_fixed_def)

lemma to_fixed_tenths: "to_fixed 3 (of_int m / 10) = of_int m / 10"
proof -
  have e: "real_of_int m / 10 = of_int (100 * m) / 10 ^ 3" by simp
  show ?thesis unfolding e by (rule to_fixed_exact)
qed


lemma to_fixed_error:
  assumes "\<bar>x\<bar> < 10 ^ 21"
  shows "\<bar>to_fixed k x - x\<bar> \<le> 1 / (2 * 10 ^ k)"
proof -
  define m :: real where "m = 10 ^ k"
  have m: "0 < m" by (simp add: m_def)
  define n where "n = \<lfloor>\<bar>x\<bar> * m + 1 / 2\<rfloor>"
  have lo: "of_int n \<le> \<bar>x\<bar> * m + 1 / 2" and hi: "\<bar>x\<bar> * m + 1 / 2 < of_int n + 1"
    by (simp_all add: n_def)
  then have d0: "\<bar>of_int n - \<bar>x\<bar> * m\<bar> \<le> 1 / 2"
    unfolding abs_le_iff by linarith
  have "of_int n / m - \<bar>x\<bar> = (of_int n - \<bar>x\<bar> * m) / m"
    using m by (simp add: field_simps)
  then have "\<bar>of_int n / m - \<bar>x\<bar>\<bar> = \<bar>of_int n - \<bar>x\<bar> * m\<bar> / m"
    using m by simp
  also have "\<dots> \<le> 1 / (2 * m)"
    using d0 m by (simp add: divide_simps)
  finally have d: "\<bar>of_int n / m - \<bar>x\<bar>\<bar> \<le> 1 / (2 * m)" .
  have "to_fixed k x - x = sgn x * (of_int n / m - \<bar>x\<bar>)"
    using assms by (simp add: to_fixed_def n_def m_def algebra_simps abs_mult_sgn)
  then have "\<bar>to_fixed k x - x\<bar> \<le> \<bar>of_int n / m - \<bar>x\<bar>\<bar>"
    by (simp add: abs_mult abs_sgn_eq split: if_splits)
  with d show ?thesis by (simp add: m_def)
qed

lemma to_fixed_grid:
  assumes "\<bar>x\<bar> < 10 ^ 21"
  shows "\<exists>m. to_fixed k x = of_int m / 10 ^ k"
proof (cases "0 \<le> x")
  case True
  with assms show ?thesis
    by (intro exI [of _ "\<lfloor>\<bar>x\<bar> * 10 ^ k + 1 / 2\<rfloor>"]) (auto simp: to_fixed_def sgn_if)
next
  case False
  with assms show ?thesis
    by (intro exI [of _ "- \<lfloor>\<bar>x\<bar> * 10 ^ k + 1 / 2\<rfloor>"]) (auto simp: to_fixed_def sgn_if)
qed

lemma js_le_NaN_iff: "is_nan a \<or> is_nan b \<Longrightarrow> \<not> js_le a b"
  by (cases a; cases b) simp_all

end
