(* ===== verification/Sampler.thy ===== *)
theory Sampler
  imports JsNum
begin

text \<open>
  The numeric sampler of src/app.js: \<open>rand.int\<close> and \<open>rand.float\<close> (lines 21--27),
  \<open>choice\<close> (line 29), \<open>difficultyRanges\<close> (lines 34--41) and \<open>rndNum\<close>
  (lines 43--46). \<open>Math.random()\<close> is the only source of randomness: it is modelled
  as a state monad over the stream of values it will return, each call taking the
  head of the stream. A lemma about a sampler is then a lemma about every sequence of
  random values, and a witness fixes the sequence.
\<close>

definition math_random :: "(rng, real) state" where
  "math_random = State (\<lambda>s. (shd s, stl s))"

text \<open>\<open>rand.int(min, max)\<close>: \<open>Math.floor(Math.random() * (max - min + 1)) + min\<close>.\<close>

definition rand_int :: "real \<Rightarrow> real \<Rightarrow> (rng, real) state" where
  "rand_int lo hi = do {
     u \<leftarrow> math_random;
     State_Monad.return (of_int \<lfloor>u * (hi - lo + 1)\<rfloor> + lo)
   }"

text \<open>\<open>rand.float(min, max, dp)\<close>: a uniform value of \<open>[min, max)\<close> rounded to \<open>dp\<close> decimals.\<close>

definition rand_float :: "real \<Rightarrow> real \<Rightarrow> nat \<Rightarrow> (rng, real) state" where
  "rand_float lo hi dp = do {
     u \<leftarrow> math_random;
     State_Monad.return (to_fixed dp (u * (hi - lo) + lo))
   }"

text \<open>
  \<open>choice(arr)\<close>: \<open>arr[Math.floor(Math.random() * arr.length)]\<close>; an index outside
  the array reads \<open>undefined\<close>, which is \<open>None\<close> here.
\<close>

definition choice :: "'a list \<Rightarrow> (rng, 'a option) state" where
  "choice xs = do {
     u \<leftarrow> math_random;
     State_Monad.return
       (let i = \<lfloor>u * of_nat (length xs)\<rfloor>
        in if 0 \<le> i \<and> i < int (length xs) then Some (xs ! nat i) else None)
   }"

text \<open>A range object \<open>{ type, min, max }\<close>; \<open>type\<close> is \<open>'int'\<close> or \<open>'float'\<close>.\<close>

datatype num_type = IntType | FloatType

record num_range =
  rtype :: num_type
  rmin :: real
  rmax :: real

definition difficultyRanges :: "string \<Rightarrow> num_range" where
  "difficultyRanges diff =
     (if diff = ''easy'' then \<lparr>rtype = IntType, rmin = 0, rmax = 10\<rparr>
      else if diff = ''medium'' then \<lparr>rtype = IntType, rmin = -10, rmax = 10\<rparr>
      else if diff = ''hard'' then \<lparr>rtype = FloatType, rmin = -25, rmax = 25\<rparr>
      else \<lparr>rtype = IntType, rmin = -10, rmax = 10\<rparr>)"

definition rndNum :: "num_range \<Rightarrow> (rng, real) state" where
  "rndNum r = (if rtype r = IntType then rand_int (rmin r) (rmax r) else rand_float (rmin r) (rmax r) 1)"

text \<open>A range with integer bounds \<open>min \<le> max\<close>, as every range of \<open>difficultyRanges\<close> is.\<close>

definition int_range :: "num_range \<Rightarrow> bool" where
  "int_range r \<longleftrightarrow> (\<exists>a b. rmin r = of_int a \<and> rmax r = of_int b \<and> a \<le> b
      \<and> \<bar>a\<bar> < 10 ^ 21 \<and> \<bar>b\<bar> < 10 ^ 21)"

subsection \<open>One call, one random value\<close>

lemma run_math_random [simp]: "run_state math_random s = (shd s, stl s)"
  by (simp add: math_random_def)

lemma run_rand_int [simp]:
  "run_state (rand_int lo hi) s = (of_int \<lfloor>shd s * (hi - lo + 1)\<rfloor> + lo, stl s)"
  by (simp add: rand_int_def)

lemma run_rand_float [simp]:
  "run_state (rand_float lo hi dp) s = (to_fixed dp (shd s * (hi - lo) + lo), stl s)"
  by (simp add: rand_float_def)

lemma run_choice [simp]:
  "run_state (choice xs) s =
     (let i = \<lfloor>shd s * of_nat (length xs)\<rfloor>
      in if 0 \<le> i \<and> i < int (length xs) then Some (xs ! nat i) else None, stl s)"
  by (simp add: choice_def)

lemma snd_run_rndNum [simp]: "snd (run_state (rndNum r) s) = stl s"
  by (simp add: rndNum_def)

lemma medium_range [simp]: "difficultyRanges ''medium'' = \<lparr>rtype = IntType, rmin = -10, rmax = 10\<rparr>"
  by (simp add: difficultyRanges_def)

subsection \<open>Range and distribution of the integer sampler\<close>

lemma rand_int_of_int:
  fixes a b :: int
  shows "fst (run_state (rand_int (of_int a) (of_int b)) s) = of_int (\<lfloor>shd s * of_int (b - a + 1)\<rfloor> + a)"
  by simp

lemma rand_int_range:
  fixes a b :: int
  assumes "unit_interval (shd s)" and "a \<le> b"
  shows "\<exists>k. fst (run_state (rand_int (of_int a) (of_int b)) s) = of_int k \<and> a \<le> k \<and> k \<le> b"
proof -
  define j where "j = \<lfloor>shd s * of_int (b - a + 1)\<rfloor>"
  have "0 \<le> j \<and> j < b - a + 1"
    unfolding j_def using assms by (intro floor_mult_unit_bounds) simp_all
  moreover have "fst (run_state (rand_int (of_int a) (of_int b)) s) = of_int (j + a)"
    by (simp only: rand_int_of_int j_def)
  ultimately show ?thesis
    by (intro exI [of _ "j + a"]) auto
qed

text \<open>
  C19. \<open>rand.int\<close> is uniform: for integer bounds \<open>a \<le> k \<le> b\<close>, the random values
  that make it return \<open>k\<close> form the interval \<open>[(k-a)/n, (k-a+1)/n)\<close> of length
  \<open>1/n\<close>, where \<open>n = b - a + 1\<close> is the number of possible results.
\<close>

theorem rand_int_uniform:
  fixes a b k :: int
  assumes "a \<le> k" and "k \<le> b"
  shows "{u. unit_interval u \<and> fst (run_state (rand_int (of_int a) (of_int b)) (u ## s)) = of_int k}
       = {of_int (k - a) / of_int (b - a + 1) ..< of_int (k - a + 1) / of_int (b - a + 1)}"
proof -
  let ?n = "b - a + 1"
  have n: "0 < ?n" using assms by simp
  have lo: "0 \<le> real_of_int (k - a) / of_int ?n" using assms n by simp
  have hi: "real_of_int (k - a + 1) / of_int ?n \<le> 1" using assms n by simp
  have eq: "fst (run_state (rand_int (of_int a) (of_int b)) (u ## s)) = of_int k
            \<longleftrightarrow> \<lfloor>u * of_int ?n\<rfloor> = k - a" for u :: real
    by (simp only: rand_int_of_int stream.sel) linarith
  show ?thesis
  proof (intro set_eqI iffI)
    fix u :: real assume "u \<in> {u. unit_interval u \<and> fst (run_state (rand_int (of_int a) (of_int b)) (u ## s)) = of_int k}"
    then have "\<lfloor>u * of_int ?n\<rfloor> = k - a" by (simp only: mem_Collect_eq eq)
    then show "u \<in> {of_int (k - a) / of_int ?n ..< of_int (k - a + 1) / of_int ?n}"
      using floor_mult_unit_eq_iff [OF n, of u "k - a"] by simp
  next
    fix u :: real assume u: "u \<in> {of_int (k - a) / of_int ?n ..< of_int (k - a + 1) / of_int ?n}"
    then have "\<lfloor>u * of_int ?n\<rfloor> = k - a"
      using floor_mult_unit_eq_iff [OF n, of u "k - a"] by simp
    moreover have "unit_interval u" using u lo hi by (simp add: unit_interval_def)
    ultimately show "u \<in> {u. unit_interval u \<and> fst (run_state (rand_int (of_int a) (of_int b)) (u ## s)) = of_int k}"
      by (simp only: mem_Collect_eq eq)
  qed
qed

theorem rand_int_uniform_witness:
  "{u. unit_interval u \<and> fst (run_state (rand_int (of_int (-10)) (of_int 10)) (u ## sconst 0)) = of_int 0}
     = {10 / 21 ..< 11 / 21}"
  using rand_int_uniform [of "-10" 0 10 "sconst 0"] by simp

text \<open>
  C22. \<open>rand.int\<close> does not reject an inverted range: with integer bounds \<open>b < a\<close> it
  returns a value of \<open>(b, a]\<close>, outside the requested (empty) interval, where the
  specification asks for the precondition violation to be signalled.
\<close>

theorem rand_int_inverted:
  fixes a b :: int
  assumes "unit_interval (shd s)" and "b < a"
  shows "of_int b < fst (run_state (rand_int (of_int a) (of_int b)) s)
       \<and> fst (run_state (rand_int (of_int a) (of_int b)) s) \<le> of_int a"
proof -
  let ?n = "b - a + 1"
  have n: "?n \<le> 0" using assms by simp
  from assms n have "0 \<le> (1 - shd s) * (- of_int ?n)"
    by (intro mult_nonneg_nonneg) (simp_all add: unit_interval_def)
  then have "of_int ?n \<le> shd s * of_int ?n"
    by (simp add: algebra_simps)
  then have "?n \<le> \<lfloor>shd s * of_int ?n\<rfloor>" by (simp add: le_floor_iff)
  moreover have "shd s * of_int ?n \<le> 0"
    using assms n by (simp add: unit_interval_def mult_nonneg_nonpos)
  then have "\<lfloor>shd s * of_int ?n\<rfloor> \<le> 0" by (simp add: floor_le_iff)
  ultimately show ?thesis
    unfolding rand_int_of_int by linarith
qed

theorem rand_int_inverted_witness:
  "fst (run_state (rand_int (of_int 5) (of_int 3)) ((1 / 2) ## sconst 0)) = 4"
  using rand_int_inverted [of "(1 / 2) ## sconst 0" 3 5] by (simp add: unit_interval_def)

lemma rndNum_medium_range:
  assumes "unit_interval (shd s)"
  shows "\<exists>k::int. fst (run_state (rndNum (difficultyRanges ''medium'')) s) = of_int k \<and> -10 \<le> k \<and> k \<le> 10"
  using rand_int_range [OF assms, of "-10" 10] by (simp add: rndNum_def)

lemma rand_float_range:
  fixes a b :: int
  assumes u: "unit_interval (shd s)" and ab: "a \<le> b"
    and small: "\<bar>real_of_int a\<bar> < 10 ^ 21" "\<bar>real_of_int b\<bar> < 10 ^ 21"
  shows "\<exists>m::int. fst (run_state (rand_float (of_int a) (of_int b) 1) s) = of_int m / 10
           \<and> of_int a \<le> of_int m / (10::real) \<and> of_int m / (10::real) \<le> of_int b"
proof -
  define v where "v = shd s * (of_int b - of_int a) + (of_int a :: real)"
  have "0 \<le> shd s * (of_int b - of_int a :: real)" using u ab by (simp add: unit_interval_def)
  then have va: "of_int a \<le> v" by (simp add: v_def)
  have "shd s * (of_int b - of_int a :: real) \<le> 1 * (of_int b - of_int a)"
    using u ab by (intro mult_right_mono) (simp_all add: unit_interval_def)
  then have vb: "v \<le> of_int b" by (simp add: v_def)
  have vs: "\<bar>v\<bar> < 10 ^ 21" using va vb small by linarith
  obtain m where m: "to_fixed 1 v = of_int m / 10" using to_fixed_grid [OF vs, of 1] by auto
  have "\<bar>of_int m / 10 - v\<bar> \<le> 1 / 20" using to_fixed_error [OF vs, of 1] unfolding m by simp
  then have err: "v - 1 / 20 \<le> of_int m / 10" "of_int m / 10 \<le> v + 1 / 20"
    unfolding abs_le_iff by linarith+
  have "10 * a \<le> m"
  proof -
    have "real_of_int (10 * a) - 1 / 2 \<le> of_int m" using err va by linarith
    then show ?thesis by linarith
  qed
  moreover have "m \<le> 10 * b"
  proof -
    have "of_int m \<le> real_of_int (10 * b) + 1 / 2" using err vb by linarith
    then show ?thesis by linarith
  qed
  ultimately show ?thesis
    using m by (intro exI [of _ m]) (simp add: v_def field_simps)
qed

text \<open>
  C20. \<open>rand.float(a, b, 1)\<close> with integer bounds \<open>a \<le> b\<close> (the \<open>'hard'\<close> range)
  returns a multiple of \<open>0.1\<close> of the closed interval \<open>[a, b]\<close>: rounding to one
  decimal never leaves the range.
\<close>

theorem rand_float_bounds:
  fixes a b :: int
  assumes "unit_interval (shd s)" and "a \<le> b"
    and "\<bar>real_of_int a\<bar> < 10 ^ 21" "\<bar>real_of_int b\<bar> < 10 ^ 21"
  shows "\<exists>m::int. fst (run_state (rand_float (of_int a) (of_int b) 1) s) = of_int m / 10
           \<and> of_int a \<le> of_int m / (10::real) \<and> of_int m / (10::real) \<le> of_int b"
  using assms by (rule rand_float_range)

theorem rand_float_bounds_witness:
  "fst (run_state (rand_float (of_int (-25)) (of_int 25) 1) ((1 / 3) ## sconst 0)) = -8.3"
proof -
  have "unit_interval (shd ((1 / 3) ## sconst (0::real)))" by (simp add: unit_interval_def)
  from rand_float_bounds [OF this, of "-25" 25] have
    "\<exists>m::int. fst (run_state (rand_float (of_int (-25)) (of_int 25) 1) ((1 / 3) ## sconst 0)) = of_int m / 10
       \<and> of_int (-25) \<le> of_int m / (10::real) \<and> of_int m / (10::real) \<le> of_int 25"
    by simp
  then show ?thesis by (simp add: to_fixed_def)
qed

text \<open>
  C21. \<open>choice\<close> on a non-empty array returns one of its elements; on an empty array
  it reads index 0 and returns \<open>undefined\<close> (\<open>None\<close>), which the code does not check.
\<close>

theorem choice_result:
  assumes "unit_interval (shd s)"
  shows "fst (run_state (choice xs) s) = (if xs = [] then None
           else Some (xs ! nat \<lfloor>shd s * of_nat (length xs)\<rfloor>))
       \<and> (xs \<noteq> [] \<longrightarrow> (\<exists>x \<in> set xs. fst (run_state (choice xs) s) = Some x))"
proof (cases "xs = []")
  case False
  define i where "i = \<lfloor>shd s * of_nat (length xs)\<rfloor>"
  have i: "0 \<le> i \<and> i < int (length xs)"
    unfolding i_def using floor_mult_unit_bounds [OF assms, of "int (length xs)"] False by simp
  then have "xs ! nat i \<in> set xs" by (intro nth_mem) linarith
  with i False show ?thesis by (simp add: i_def [symmetric] Let_def)
qed simp

theorem choice_result_witness:
  "fst (run_state (choice [''a'', ''b'']) ((3 / 4) ## sconst 0)) = Some ''b''
   \<and> fst (run_state (choice ([] :: string list)) ((3 / 4) ## sconst 0)) = None"
proof -
  have u: "unit_interval (shd ((3 / 4) ## sconst (0::real)))" by (simp add: unit_interval_def)
  from choice_result [OF u, of "[''a'', ''b'']"] choice_result [OF u, of "[] :: string list"]
  show ?thesis by simp
qed

text \<open>
  Every range of \<open>difficultyRanges\<close> has integer bounds (\<open>int_range\<close>), and
  \<open>rndNum\<close> over such a range returns a multiple of \<open>1/10\<close> inside it: the fact the question generators
  rely on to compute their answers exactly.
\<close>

lemma int_range_difficultyRanges: "int_range (difficultyRanges d)"
proof -
  have m: "int_range \<lparr>rtype = t, rmin = - 10, rmax = 10\<rparr>" for t
    unfolding int_range_def by (rule exI [of _ "-10"], rule exI [of _ 10]) simp
  have e: "int_range \<lparr>rtype = IntType, rmin = 0, rmax = 10\<rparr>"
    unfolding int_range_def by (rule exI [of _ 0], rule exI [of _ 10]) simp
  have h: "int_range \<lparr>rtype = FloatType, rmin = - 25, rmax = 25\<rparr>"
    unfolding int_range_def by (rule exI [of _ "-25"], rule exI [of _ 25]) simp
  show ?thesis using m e h by (simp add: difficultyRanges_def)
qed

lemma rndNum_tenths:
  assumes "unit_interval (shd s)" and "int_range r"
  shows "\<exists>m::int. fst (run_state (rndNum r) s) = of_int m / 10
           \<and> rmin r \<le> of_int m / 10 \<and> of_int m / 10 \<le> rmax r"
proof -
  obtain a b where r: "rmin r = of_int a" "rmax r = of_int b" and ab: "a \<le> b"
    and small: "\<bar>a\<bar> < 10 ^ 21" "\<bar>b\<bar> < 10 ^ 21"
    using assms(2) by (auto simp: int_range_def)
  have smallr: "\<bar>real_of_int a\<bar> < 10 ^ 21" "\<bar>real_of_int b\<bar> < 10 ^ 21"
    using small by (simp_all only: of_int_abs [symmetric] of_int_less_iff [symmetric]) simp_all
  show ?thesis
  proof (cases "rtype r = IntType")
    case True
    obtain k where "fst (run_state (rand_int (of_int a) (of_int b)) s) = of_int k" "a \<le> k" "k \<le> b"
      using rand_int_range [OF assms(1) ab] by blast
    with True r show ?thesis
      by (intro exI [of _ "10 * k"]) (simp add: rndNum_def)
  next
    case False
    with rand_float_range [OF assms(1) ab smallr] r show ?thesis
      by (simp add: rndNum_def)
  qed
qed

end
