(* ===== verification/NumText.thy ===== *)
theory NumText
  imports JsNum
begin

text \<open>
  Number-to-text conversion as JavaScript's template literals and \<open>String(x)\<close>
  perform it (ECMAScript Number::toString, radix 10), used by the prompts and
  explanations of the question generators and by the click handler that writes a
  snapped coordinate into an answer field. A finite value with a terminating decimal
  expansion (every value this program prints: generated coordinates are multiples of
  \<open>10^-3\<close>, snapped ones of \<open>1/2\<close>) is printed with its shortest digit string, in
  plain notation from \<open>10^-6\<close> up to \<open>10^21\<close> and in exponent notation outside.
  Reals whose expansion needs more than 20 decimals are not doubles of this program;
  they are printed rounded to 20 decimals. The lemmas at the end show that integers
  and halves (what a typed answer or a canvas click writes into a field) print as
  their digits and that \<open>parseFloat\<close> reads them back exactly.
\<close>

definition digit_char :: "nat \<Rightarrow> char" where
  "digit_char d = ''0123456789'' ! d"

fun nat_digits :: "nat \<Rightarrow> string" where
  "nat_digits n = (if n < 10 then [digit_char n] else nat_digits (n div 10) @ [digit_char (n mod 10)])"

definition is_int :: "real \<Rightarrow> bool" where
  "is_int x \<longleftrightarrow> of_int \<lfloor>x\<rfloor> = x"

text \<open>The number of decimals of a terminating expansion (at most 20).\<close>

definition dec_places :: "real \<Rightarrow> nat" where
  "dec_places x = hd (filter (\<lambda>d. is_int (x * 10 ^ d)) [0..<21] @ [20])"

fun strip_zeros :: "string \<Rightarrow> string" where
  "strip_zeros [] = []"
| "strip_zeros (c # cs) = (let r = strip_zeros cs in if r = [] \<and> c = CHR ''0'' then [] else c # r)"

text \<open>Exponent notation: the digits with a point after the first, \<open>e\<close>, the signed exponent.\<close>

definition exp_notation :: "string \<Rightarrow> int \<Rightarrow> string" where
  "exp_notation s e =
     (case s of [] \<Rightarrow> ''0'' | c # cs \<Rightarrow> (if cs = [] then [c] else c # CHR ''.'' # cs))
     @ ''e'' @ (if 0 \<le> e then ''+'' else ''-'') @ nat_digits (nat \<bar>e\<bar>)"

text \<open>A positive finite value: digits \<open>ds\<close> of \<open>x * 10^d\<close>, and \<open>n\<close> digits before the point.\<close>

definition pos_to_string :: "real \<Rightarrow> string" where
  "pos_to_string x =
     (let d = dec_places x;
          ds = nat_digits (nat \<lfloor>x * 10 ^ d + 1 / 2\<rfloor>);
          n = int (length ds) - int d
      in if d = 0 \<and> n \<le> 21 then ds
         else if 0 < d \<and> 0 < n \<and> n \<le> 21 then take (nat n) ds @ ''.'' @ drop (nat n) ds
         else if 0 < d \<and> -6 < n \<and> n \<le> 0 then ''0.'' @ replicate (nat (- n)) CHR ''0'' @ ds
         else exp_notation (strip_zeros ds) (n - 1))"

definition real_to_string :: "real \<Rightarrow> string" where
  "real_to_string x =
     (if x = 0 then ''0'' else if x < 0 then CHR ''-'' # pos_to_string (- x) else pos_to_string x)"

fun js_to_string :: "jsnum \<Rightarrow> string" where
  "js_to_string (Num x) = real_to_string x"
| "js_to_string NaN = ''NaN''"
| "js_to_string PInf = ''Infinity''"
| "js_to_string NInf = ''-Infinity''"

text \<open>
  \<open>parseFloat(s)\<close>: skip leading white space, read an optional sign and either
  \<open>Infinity\<close> or the longest prefix of the form \<open>digits [. digits] [e [sign] digits]\<close>
  with at least one digit before the exponent; \<open>NaN\<close> when there is none.
\<close>

definition is_digit :: "char \<Rightarrow> bool" where
  "is_digit c \<longleftrightarrow> 48 \<le> (of_char c :: nat) \<and> (of_char c :: nat) \<le> 57"

definition digit_val :: "char \<Rightarrow> nat" where
  "digit_val c = (of_char c :: nat) - 48"

definition digits_val :: "string \<Rightarrow> nat" where
  "digits_val ds = foldl (\<lambda>n c. 10 * n + digit_val c) 0 ds"

definition is_space :: "char \<Rightarrow> bool" where
  "is_space c \<longleftrightarrow> c \<in> set [CHR '' '', CHR 0x09, CHR 0x0A, CHR 0x0B, CHR 0x0C, CHR 0x0D]"

definition pow10 :: "int \<Rightarrow> real" where
  "pow10 e = (if 0 \<le> e then 10 ^ nat e else 1 / 10 ^ nat (- e))"

text \<open>The exponent part: its value, or 0 when the text after the mantissa is not one.\<close>

definition parse_exponent :: "string \<Rightarrow> int" where
  "parse_exponent s =
     (case s of
        c # rest \<Rightarrow>
          if c = CHR ''e'' \<or> c = CHR ''E'' then
            (let (sg, r) = (case rest of
                              d # r' \<Rightarrow> if d = CHR ''-'' then (-1, r') else if d = CHR ''+'' then (1, r') else (1, rest)
                            | [] \<Rightarrow> (1, []));
                 ds = takeWhile is_digit r
             in if ds = [] then 0 else sg * int (digits_val ds))
          else 0
      | [] \<Rightarrow> 0)"

definition parse_unsigned :: "string \<Rightarrow> jsnum" where
  "parse_unsigned s =
     (if take 8 s = ''Infinity'' then PInf
      else let ip = takeWhile is_digit s; r = dropWhile is_digit s;
               fp = (case r of c # r' \<Rightarrow> if c = CHR ''.'' then takeWhile is_digit r' else [] | [] \<Rightarrow> []);
               r2 = (case r of c # r' \<Rightarrow> if c = CHR ''.'' then dropWhile is_digit r' else r | [] \<Rightarrow> r)
           in if ip = [] \<and> fp = [] then NaN
              else Num ((of_nat (digits_val ip) + of_nat (digits_val fp) / 10 ^ length fp)
                        * pow10 (parse_exponent r2)))"

definition parseFloat :: "string \<Rightarrow> jsnum" where
  "parseFloat s =
     (let t = dropWhile is_space s
      in case t of
           c # r \<Rightarrow> if c = CHR ''-'' then js_neg (parse_unsigned r)
                   else if c = CHR ''+'' then parse_unsigned r else parse_unsigned t
         | [] \<Rightarrow> NaN)"

declare nat_digits.simps [simp del]

subsection \<open>Integers print as their decimal digits\<close>

lemma is_int_of_int [simp]: "is_int (of_int n)"
  by (simp add: is_int_def)

lemma dec_places_of_int [simp]: "dec_places (of_int n) = 0"
  by (simp add: dec_places_def upt_rec)

lemma nat_digits_ne [simp]: "nat_digits n \<noteq> []"
  by (subst nat_digits.simps) simp

lemma length_nat_digits: "m < 10 ^ k \<Longrightarrow> 0 < k \<Longrightarrow> length (nat_digits m) \<le> k"
proof (induction m arbitrary: k rule: nat_digits.induct)
  case (1 m)
  show ?case
  proof (cases "m < 10")
    case True
    with "1.prems" show ?thesis by (simp add: nat_digits.simps [of m])
  next
    case False
    with "1.prems" have "(10::nat) ^ 1 < 10 ^ k" by simp
    then have k: "1 < k" by (rule power_less_imp_less_exp [rotated]) simp
    from "1.prems" have "m div 10 < 10 ^ (k - 1)"
      using k by (cases k) (simp_all add: less_mult_imp_div_less mult.commute)
    with "1.IH" False k have "length (nat_digits (m div 10)) \<le> k - 1" by simp
    with False k show ?thesis by (simp add: nat_digits.simps [of m])
  qed
qed

lemma pos_to_string_int:
  assumes "0 < n" and "n < 10 ^ 21"
  shows "pos_to_string (of_int n) = nat_digits (nat n)"
proof -
  have "nat n < 10 ^ 21" using assms by (simp add: nat_less_iff)
  then have "length (nat_digits (nat n)) \<le> 21" by (rule length_nat_digits) simp
  then show ?thesis by (simp add: pos_to_string_def Let_def)
qed

lemma real_to_string_int:
  assumes "\<bar>n\<bar> < 10 ^ 21"
  shows "real_to_string (of_int n) = (if n < 0 then CHR ''-'' # nat_digits (nat (- n)) else nat_digits (nat n))"
proof -
  consider "n = 0" | "0 < n" | "n < 0" by linarith
  then show ?thesis
  proof cases
    case 1 then show ?thesis by (simp add: real_to_string_def nat_digits.simps digit_char_def)
  next
    case 2 with assms show ?thesis by (simp add: real_to_string_def pos_to_string_int)
  next
    case 3
    with assms have "pos_to_string (of_int (- n)) = nat_digits (nat (- n))"
      by (intro pos_to_string_int) simp_all
    with 3 show ?thesis by (simp add: real_to_string_def)
  qed
qed

subsection \<open>Reading printed integers back\<close>

lemma digit_char_props: "d < 10 \<Longrightarrow> is_digit (digit_char d) \<and> digit_val (digit_char d) = d"
  by (auto simp: less_Suc_eq numeral_eq_Suc digit_char_def is_digit_def digit_val_def)

lemma nat_digits_digits: "\<forall>c\<in>set (nat_digits n). is_digit c"
proof (induction n rule: nat_digits.induct)
  case (1 n)
  then show ?case by (subst nat_digits.simps) (auto simp: digit_char_props)
qed

lemma digits_val_Nil [simp]: "digits_val [] = 0"
  by (simp add: digits_val_def)

lemma digits_val_snoc: "digits_val (ds @ [c]) = 10 * digits_val ds + digit_val c"
  by (simp add: digits_val_def)

lemma digits_val_nat_digits: "digits_val (nat_digits n) = n"
proof (induction n rule: nat_digits.induct)
  case (1 n)
  show ?case
  proof (cases "n < 10")
    case True
    then show ?thesis by (simp add: nat_digits.simps [of n] digits_val_def digit_char_props)
  next
    case False
    with "1.IH" show ?thesis by (simp add: nat_digits.simps [of n] digits_val_snoc digit_char_props)
  qed
qed

lemma parse_unsigned_nat_digits: "parse_unsigned (nat_digits n) = Num (of_nat n)"
proof -
  have d: "\<forall>c\<in>set (nat_digits n). is_digit c" by (rule nat_digits_digits)
  obtain c cs where cs: "nat_digits n = c # cs" by (cases "nat_digits n") auto
  with d have "is_digit c" by simp
  then have "c \<noteq> CHR ''I''" by (auto simp: is_digit_def)
  then have inf: "take 8 (nat_digits n) \<noteq> ''Infinity''" by (simp add: cs)
  have tw: "takeWhile is_digit (nat_digits n) = nat_digits n" and dw: "dropWhile is_digit (nat_digits n) = []"
    using d by (simp_all add: takeWhile_eq_all_conv dropWhile_eq_Nil_conv)
  show ?thesis
    unfolding parse_unsigned_def Let_def tw dw
    using inf by (simp add: digits_val_nat_digits digits_val_Nil parse_exponent_def pow10_def)
qed

lemma parseFloat_int_string:
  assumes "\<bar>n\<bar> < 10 ^ 21"
  shows "parseFloat (js_to_string (Num (of_int n))) = Num (of_int n)"
proof -
  obtain c cs where cs: "nat_digits (nat \<bar>n\<bar>) = c # cs" by (cases "nat_digits (nat \<bar>n\<bar>)") auto
  have "is_digit c" using nat_digits_digits [of "nat \<bar>n\<bar>"] cs by simp
  then have c: "\<not> is_space c" "c \<noteq> CHR ''-''" "c \<noteq> CHR ''+''" by (auto simp: is_digit_def is_space_def)
  have sp: "\<not> is_space CHR ''-''" by (simp add: is_space_def)
  show ?thesis
  proof (cases "n < 0")
    case True
    have "parse_unsigned (nat_digits (nat (- n))) = Num (of_int (- n))"
      using True parse_unsigned_nat_digits [of "nat (- n)"] by simp
    with True assms sp show ?thesis by (simp add: real_to_string_int parseFloat_def)
  next
    case False
    then have "parse_unsigned (nat_digits (nat n)) = Num (of_int n)"
      using parse_unsigned_nat_digits [of "nat n"] by simp
    with False assms c cs show ?thesis by (simp add: real_to_string_int parseFloat_def)
  qed
qed

subsection \<open>Halves print as digits and \<open>.5\<close>, and read back\<close>

lemma is_int_half_odd: "odd m \<Longrightarrow> \<not> is_int (of_nat m / 2)"
proof
  assume "odd m" and "is_int (of_nat m / 2)"
  then have "of_int \<lfloor>of_nat m / 2 :: real\<rfloor> * 2 = (of_nat m :: real)" by (simp add: is_int_def)
  then have "\<lfloor>of_nat m / 2 :: real\<rfloor> * 2 = int m" by linarith
  then have "even (int m)" by (metis dvd_triv_right)
  with \<open>odd m\<close> show False by simp
qed

lemma dec_places_half_odd: "odd m \<Longrightarrow> dec_places (of_nat m / 2) = 1"
proof -
  assume m: "odd m"
  have "of_nat m / 2 * 10 ^ 1 = (of_nat (5 * m) :: real)" by simp
  then have "is_int (of_nat m / 2 * 10 ^ 1)" by (simp add: is_int_def)
  with m show ?thesis
    by (simp add: dec_places_def upt_conv_Cons is_int_half_odd del: upt_Suc)
qed


lemma pos_to_string_half_odd:
  assumes "m = 2 * k + 1" and "k < 10 ^ 21"
  shows "pos_to_string (of_nat m / 2) = nat_digits k @ ''.5''"
proof -
  have "odd m" using assms(1) by simp
  then have d: "dec_places (of_nat m / 2) = 1" by (rule dec_places_half_odd)
  have "of_nat m / 2 * 10 ^ 1 + 1 / 2 = (of_nat (5 * m) :: real) + 1 / 2" by simp
  then have fl: "nat \<lfloor>of_nat m / 2 * 10 ^ 1 + 1 / 2 :: real\<rfloor> = 5 * m" by linarith
  show ?thesis
  proof (cases "k = 0")
    case True
    then have "5 * m = 5" using assms(1) by simp
    then show ?thesis
      unfolding pos_to_string_def d fl Let_def using True by (simp add: nat_digits.simps digit_char_def)
  next
    case False
    have m5: "5 * m = 10 * k + 5" using assms(1) by simp
    have "nat_digits (10 * k + 5) = nat_digits k @ [CHR ''5'']"
      using False by (subst nat_digits.simps) (simp add: digit_char_def)
    then have ds: "nat_digits (5 * m) = nat_digits k @ [CHR ''5'']" by (simp only: m5)
    have "length (nat_digits k) \<le> 21" using assms(2) by (rule length_nat_digits) simp
    moreover have "0 < length (nat_digits k)" by simp
    ultimately show ?thesis
      unfolding pos_to_string_def d fl ds Let_def by simp
  qed
qed


lemma parse_unsigned_half: "parse_unsigned (nat_digits k @ ''.5'') = Num (of_nat k + 1 / 2)"
proof -
  have d: "\<forall>c\<in>set (nat_digits k). is_digit c" by (rule nat_digits_digits)
  obtain c cs where cs: "nat_digits k = c # cs" by (cases "nat_digits k") auto
  with d have "is_digit c" by simp
  then have "c \<noteq> CHR ''I''" by (auto simp: is_digit_def)
  then have inf: "take 8 (nat_digits k @ ''.5'') \<noteq> ''Infinity''" by (simp add: cs)
  have pt: "\<not> is_digit CHR ''.''" and five: "is_digit CHR ''5''" by (simp_all add: is_digit_def)
  have tw: "takeWhile is_digit (nat_digits k @ ''.5'') = nat_digits k"
    and dw: "dropWhile is_digit (nat_digits k @ ''.5'') = ''.5''"
    using d pt by (simp_all add: takeWhile_append2 dropWhile_append2)
  have "digits_val ''5'' = 5" by (simp add: digits_val_def digit_val_def)
  then show ?thesis
    unfolding parse_unsigned_def Let_def tw dw
    using inf five by (simp add: digits_val_nat_digits parse_exponent_def pow10_def)
qed

lemma parseFloat_pos_digits:
  assumes "ds = nat_digits k @ rest"
  shows "parseFloat ds = parse_unsigned ds"
proof -
  obtain c cs where cs: "nat_digits k = c # cs" by (cases "nat_digits k") auto
  have "is_digit c" using nat_digits_digits [of k] cs by simp
  then have "\<not> is_space c" "c \<noteq> CHR ''-''" "c \<noteq> CHR ''+''" by (auto simp: is_digit_def is_space_def)
  with assms cs show ?thesis by (simp add: parseFloat_def)
qed

lemma parseFloat_half_string:
  assumes "\<bar>j\<bar> < 2 * 10 ^ 21"
  shows "parseFloat (js_to_string (Num (of_int j / 2))) = Num (of_int j / 2)"
proof (cases "even j")
  case True
  then obtain i where i: "j = 2 * i" by blast
  with assms have "\<bar>i\<bar> < 10 ^ 21" by simp
  then have "parseFloat (js_to_string (Num (of_int i))) = Num (of_int i)" by (rule parseFloat_int_string)
  with i show ?thesis by simp
next
  case False
  define k where "k = nat \<bar>j\<bar> div 2"
  have m: "nat \<bar>j\<bar> = 2 * k + 1" using False by (simp add: k_def odd_iff_mod_2_eq_one)
  have "nat \<bar>j\<bar> < 2 * 10 ^ 21" using assms by (simp add: nat_less_iff)
  with m have k: "k < 10 ^ 21" by simp
  have ps: "pos_to_string (of_nat (nat \<bar>j\<bar>) / 2) = nat_digits k @ ''.5''"
    using m k by (rule pos_to_string_half_odd)
  have val: "of_nat k + 1 / 2 = (of_nat (nat \<bar>j\<bar>) / 2 :: real)" using m by simp
  have sp: "\<not> is_space CHR ''-''" by (simp add: is_space_def)
  show ?thesis
  proof (cases "j < 0")
    case True
    then have "- (of_int j / 2) = (of_nat (nat \<bar>j\<bar>) / 2 :: real)" by simp
    moreover have "parseFloat (nat_digits k @ ''.5'') = Num (of_nat (nat \<bar>j\<bar>) / 2)"
      by (simp add: parseFloat_pos_digits parse_unsigned_half val)
    ultimately show ?thesis
      using True ps sp by (simp add: real_to_string_def parseFloat_def parse_unsigned_half val)
  next
    case False
    then have "of_int j / 2 = (of_nat (nat \<bar>j\<bar>) / 2 :: real)" "j \<noteq> 0" using m by simp_all
    moreover have "parseFloat (nat_digits k @ ''.5'') = Num (of_nat (nat \<bar>j\<bar>) / 2)"
      by (simp add: parseFloat_pos_digits parse_unsigned_half val)
    ultimately show ?thesis
      using False ps by (simp add: real_to_string_def)
  qed
qed

end
