(* ===== verification/Questions.thy ===== *)
theory Questions
  imports Sampler NumText "HOL-Library.Sublist"
begin

text \<open>
  The question generators of src/app.js (lines 171--200) and the text helpers they
  use, \<open>fmtPoint\<close> and \<open>fmtVector\<close> (lines 31--32). A generator samples four
  numbers with \<open>rndNum\<close> (the initial or terminal point first, then the vector, each
  \<open>x\<close> before \<open>y\<close>, as JavaScript evaluates array literals left to right) and builds
  the question object from them; the object literal is the pure function
  \<open>terminal_question\<close> / \<open>initial_question\<close>, so that a question can be built from
  given values as the specification's scenarios do. Strings are byte strings: the
  angle brackets of \<open>fmtVector\<close> (U+27E8, U+27E9) are their UTF-8 bytes.
\<close>

datatype answer_shape = ShapePair | ShapeScalar

record draw_point =
  dp_p :: point
  dp_label :: string

record draw_arrow =
  da_from :: point
  da_to :: point

record draw_spec =
  draw_points :: "draw_point list"
  draw_arrows :: "draw_arrow list"

record question =
  kind :: string
  prompt :: string
  answer :: point
  answerShape :: answer_shape
  explain :: string
  draw :: draw_spec

definition langle :: string where
  "langle = [CHR 0xE2, CHR 0x9F, CHR 0xA8]"

definition rangle :: string where
  "rangle = [CHR 0xE2, CHR 0x9F, CHR 0xA9]"

fun fmtPoint :: "point \<Rightarrow> string" where
  "fmtPoint (x, y) = ''('' @ real_to_string x @ '', '' @ real_to_string y @ '')''"

fun fmtVector :: "point \<Rightarrow> string" where
  "fmtVector (a, b) = langle @ real_to_string a @ '', '' @ real_to_string b @ rangle"

text \<open>\<open>[Number((a + b).toFixed(3)), \<dots>]\<close>, the rounded sum and difference of two pairs.\<close>

fun add3 :: "point \<Rightarrow> point \<Rightarrow> point" where
  "add3 (p0, p1) (v0, v1) = (to_fixed 3 (p0 + v0), to_fixed 3 (p1 + v1))"

fun sub3 :: "point \<Rightarrow> point \<Rightarrow> point" where
  "sub3 (q0, q1) (v0, v1) = (to_fixed 3 (q0 - v0), to_fixed 3 (q1 - v1))"

definition terminal_question :: "point \<Rightarrow> point \<Rightarrow> question" where
  "terminal_question P v =
     (let Q = add3 P v in
      \<lparr>kind = ''terminalFromInitialAndVector'',
       prompt = ''Given initial point P '' @ fmtPoint P @ '' and vector v = '' @ fmtVector v
                @ '', find the terminal point Q = P + v.'',
       answer = Q,
       answerShape = ShapePair,
       explain = ''Q = P + v = ('' @ real_to_string (fst P) @ '' + '' @ real_to_string (fst v)
                 @ '', '' @ real_to_string (snd P) @ '' + '' @ real_to_string (snd v) @ '') = ''
                 @ fmtPoint Q @ ''.'',
       draw = \<lparr>draw_points = [\<lparr>dp_p = P, dp_label = ''P''\<rparr>],
               draw_arrows = [\<lparr>da_from = P, da_to = Q\<rparr>]\<rparr>\<rparr>)"

definition initial_question :: "point \<Rightarrow> point \<Rightarrow> question" where
  "initial_question Q v =
     (let P = sub3 Q v in
      \<lparr>kind = ''initialFromTerminalAndVector'',
       prompt = ''Given terminal point Q '' @ fmtPoint Q @ '' and vector v = '' @ fmtVector v
                @ '', find the initial point P such that Q = P + v.'',
       answer = P,
       answerShape = ShapePair,
       explain = ''P = Q - v = ('' @ real_to_string (fst Q) @ '' - '' @ real_to_string (fst v)
                 @ '', '' @ real_to_string (snd Q) @ '' - '' @ real_to_string (snd v) @ '') = ''
                 @ fmtPoint P @ ''.'',
       draw = \<lparr>draw_points = [\<lparr>dp_p = Q, dp_label = ''Q''\<rparr>],
               draw_arrows = [\<lparr>da_from = (0, 0), da_to = v\<rparr>]\<rparr>\<rparr>)"

definition terminalFromInitialAndVector :: "num_range \<Rightarrow> (rng, question) state" where
  "terminalFromInitialAndVector r = do {
     p0 \<leftarrow> rndNum r; p1 \<leftarrow> rndNum r;
     v0 \<leftarrow> rndNum r; v1 \<leftarrow> rndNum r;
     State_Monad.return (terminal_question (p0, p1) (v0, v1))
   }"

definition initialFromTerminalAndVector :: "num_range \<Rightarrow> (rng, question) state" where
  "initialFromTerminalAndVector r = do {
     q0 \<leftarrow> rndNum r; q1 \<leftarrow> rndNum r;
     v0 \<leftarrow> rndNum r; v1 \<leftarrow> rndNum r;
     State_Monad.return (initial_question (q0, q1) (v0, v1))
   }"

text \<open>The \<open>generators\<close> object: a property lookup by kind name, \<open>undefined\<close> for any other name.\<close>

definition generators :: "string \<Rightarrow> (num_range \<Rightarrow> (rng, question) state) option" where
  "generators name =
     (if name = ''terminalFromInitialAndVector'' then Some terminalFromInitialAndVector
      else if name = ''initialFromTerminalAndVector'' then Some initialFromTerminalAndVector
      else None)"

text \<open>Both coordinates of a pair inside a range.\<close>

fun in_range :: "num_range \<Rightarrow> point \<Rightarrow> bool" where
  "in_range r (x, y) \<longleftrightarrow> rmin r \<le> x \<and> x \<le> rmax r \<and> rmin r \<le> y \<and> y \<le> rmax r"

text \<open>
  What the drawing of a question determines as its answer: for the forward question,
  the head of the arrow that starts at the drawn point; for the inverse question, the
  drawn point minus the vector drawn from the origin.
\<close>

definition drawn_answer :: "question \<Rightarrow> point option" where
  "drawn_answer q =
     (case (draw_points (draw q), draw_arrows (draw q)) of
        ([p], [a]) \<Rightarrow>
          if kind q = ''terminalFromInitialAndVector'' \<and> da_from a = dp_p p then Some (da_to a)
          else if kind q = ''initialFromTerminalAndVector'' \<and> da_from a = (0, 0)
          then Some (fst (dp_p p) - fst (da_to a), snd (dp_p p) - snd (da_to a))
          else None
      | _ \<Rightarrow> None)"

text \<open>The world points a question's drawing shows: its points and both ends of its arrows.\<close>

definition drawn_points :: "question \<Rightarrow> point list" where
  "drawn_points q = map dp_p (draw_points (draw q)) @ concat (map (\<lambda>a. [da_from a, da_to a]) (draw_arrows (draw q)))"

text \<open>The explanation ends with the formatted answer and a full stop.\<close>

definition reveals_answer :: "question \<Rightarrow> bool" where
  "reveals_answer q \<longleftrightarrow> suffix (fmtPoint (answer q) @ ''.'') (explain q)"

abbreviation sample :: "num_range \<Rightarrow> rng \<Rightarrow> real" where
  "sample r s \<equiv> fst (run_state (rndNum r) s)"

subsection \<open>Running a generator\<close>

lemma terminal_question_sel [simp]:
  "kind (terminal_question P v) = ''terminalFromInitialAndVector''"
  "answer (terminal_question P v) = add3 P v"
  "answerShape (terminal_question P v) = ShapePair"
  "draw (terminal_question P v) = \<lparr>draw_points = [\<lparr>dp_p = P, dp_label = ''P''\<rparr>],
                                   draw_arrows = [\<lparr>da_from = P, da_to = add3 P v\<rparr>]\<rparr>"
  by (simp_all add: terminal_question_def Let_def)

lemma initial_question_sel [simp]:
  "kind (initial_question Q v) = ''initialFromTerminalAndVector''"
  "answer (initial_question Q v) = sub3 Q v"
  "answerShape (initial_question Q v) = ShapePair"
  "draw (initial_question Q v) = \<lparr>draw_points = [\<lparr>dp_p = Q, dp_label = ''Q''\<rparr>],
                                  draw_arrows = [\<lparr>da_from = (0, 0), da_to = v\<rparr>]\<rparr>"
  by (simp_all add: initial_question_def Let_def)

lemma reveals_answer_terminal: "reveals_answer (terminal_question P v)"
proof -
  have "explain (terminal_question P v) =
          (''Q = P + v = ('' @ real_to_string (fst P) @ '' + '' @ real_to_string (fst v)
             @ '', '' @ real_to_string (snd P) @ '' + '' @ real_to_string (snd v) @ '') = '')
          @ fmtPoint (add3 P v) @ ''.''"
    by (simp add: terminal_question_def Let_def)
  then show ?thesis unfolding reveals_answer_def suffix_def by auto
qed

lemma reveals_answer_initial: "reveals_answer (initial_question Q v)"
proof -
  have "explain (initial_question Q v) =
          (''P = Q - v = ('' @ real_to_string (fst Q) @ '' - '' @ real_to_string (fst v)
             @ '', '' @ real_to_string (snd Q) @ '' - '' @ real_to_string (snd v) @ '') = '')
          @ fmtPoint (sub3 Q v) @ ''.''"
    by (simp add: initial_question_def Let_def)
  then show ?thesis unfolding reveals_answer_def suffix_def by auto
qed

lemma run_terminalFromInitialAndVector:
  "run_state (terminalFromInitialAndVector r) s =
     (terminal_question (sample r s, sample r (stl s))
        (sample r (stl (stl s)), sample r (stl (stl (stl s)))), sdrop 4 s)"
  by (simp add: terminalFromInitialAndVector_def split_beta numeral_eq_Suc)

lemma run_initialFromTerminalAndVector:
  "run_state (initialFromTerminalAndVector r) s =
     (initial_question (sample r s, sample r (stl s))
        (sample r (stl (stl s)), sample r (stl (stl (stl s)))), sdrop 4 s)"
  by (simp add: initialFromTerminalAndVector_def split_beta numeral_eq_Suc)

lemma generated_reveals:
  assumes "gen = terminalFromInitialAndVector \<or> gen = initialFromTerminalAndVector"
  shows "reveals_answer (fst (run_state (gen r) s))"
  using assms
  by (auto simp only: run_terminalFromInitialAndVector run_initialFromTerminalAndVector prod.sel
        reveals_answer_terminal reveals_answer_initial)

lemma add3_tenths:
  "add3 (of_int a / 10, of_int b / 10) (of_int c / 10, of_int d / 10)
     = (of_int a / 10 + of_int c / 10, of_int b / 10 + of_int d / 10)"
proof -
  have "real_of_int a / 10 + of_int c / 10 = of_int (a + c) / 10"
    "real_of_int b / 10 + of_int d / 10 = of_int (b + d) / 10" by simp_all
  then show ?thesis by (simp only: add3.simps to_fixed_tenths)
qed

lemma sub3_tenths:
  "sub3 (of_int a / 10, of_int b / 10) (of_int c / 10, of_int d / 10)
     = (of_int a / 10 - of_int c / 10, of_int b / 10 - of_int d / 10)"
proof -
  have "real_of_int a / 10 - of_int c / 10 = of_int (a - c) / 10"
    "real_of_int b / 10 - of_int d / 10 = of_int (b - d) / 10" by (simp_all add: diff_divide_distrib)
  then show ?thesis by (simp only: sub3.simps to_fixed_tenths)
qed

text \<open>Four draws from a valid random source over a range with integer bounds.\<close>

lemma four_samples:
  assumes "valid_rng s" and "int_range r"
  obtains a b c d :: int where
    "sample r s = of_int a / 10" "sample r (stl s) = of_int b / 10"
    "sample r (stl (stl s)) = of_int c / 10" "sample r (stl (stl (stl s))) = of_int d / 10"
    "in_range r (of_int a / 10, of_int b / 10)" "in_range r (of_int c / 10, of_int d / 10)"
proof -
  have v: "valid_rng (stl s)" "valid_rng (stl (stl s))" "valid_rng (stl (stl (stl s)))"
    using assms(1) by blast+
  obtain a where a: "sample r s = of_int a / 10" "rmin r \<le> of_int a / 10" "of_int a / 10 \<le> rmax r"
    using rndNum_tenths [OF valid_rng_shd [OF assms(1)] assms(2)] by blast
  obtain b where b: "sample r (stl s) = of_int b / 10" "rmin r \<le> of_int b / 10" "of_int b / 10 \<le> rmax r"
    using rndNum_tenths [OF valid_rng_shd [OF v(1)] assms(2)] by blast
  obtain c where c: "sample r (stl (stl s)) = of_int c / 10" "rmin r \<le> of_int c / 10" "of_int c / 10 \<le> rmax r"
    using rndNum_tenths [OF valid_rng_shd [OF v(2)] assms(2)] by blast
  obtain d where d: "sample r (stl (stl (stl s))) = of_int d / 10" "rmin r \<le> of_int d / 10" "of_int d / 10 \<le> rmax r"
    using rndNum_tenths [OF valid_rng_shd [OF v(3)] assms(2)] by blast
  from a b c d show ?thesis by (intro that [of a b c d]) simp_all
qed

subsection \<open>The generated answer is exact and agrees with the drawing\<close>

text \<open>
  C8. \<open>terminalFromInitialAndVector\<close> over a range with integer bounds draws \<open>P\<close> and
  \<open>v\<close> inside the range, consumes four random values, and its answer is exactly
  \<open>P + v\<close>: the rounding to three decimals never changes a sum of the sampled values.
\<close>

theorem terminal_generated:
  assumes "valid_rng s" and "int_range r"
  shows "\<exists>P v. run_state (terminalFromInitialAndVector r) s = (terminal_question P v, sdrop 4 s)
           \<and> in_range r P \<and> in_range r v
           \<and> answer (terminal_question P v) = (fst P + fst v, snd P + snd v)"
proof -
  obtain a b c d :: int where
    e: "sample r s = of_int a / 10" "sample r (stl s) = of_int b / 10"
       "sample r (stl (stl s)) = of_int c / 10" "sample r (stl (stl (stl s))) = of_int d / 10"
    and rg: "in_range r (of_int a / 10, of_int b / 10)" "in_range r (of_int c / 10, of_int d / 10)"
    using four_samples [OF assms] by blast
  show ?thesis
    by (rule exI [of _ "(of_int a / 10, of_int b / 10)"], rule exI [of _ "(of_int c / 10, of_int d / 10)"])
       (simp only: run_terminalFromInitialAndVector e rg terminal_question_sel add3_tenths
          prod.sel simp_thms)
qed

theorem terminal_generated_witness:
  "\<exists>P v. run_state (terminalFromInitialAndVector (difficultyRanges ''medium'')) (sconst (1 / 2))
           = (terminal_question P v, sdrop 4 (sconst (1 / 2)))
         \<and> in_range (difficultyRanges ''medium'') P \<and> in_range (difficultyRanges ''medium'') v
         \<and> answer (terminal_question P v) = (fst P + fst v, snd P + snd v)"
proof -
  have "valid_rng (sconst (1 / 2))" by (simp add: unit_interval_def)
  from terminal_generated [OF this int_range_difficultyRanges] show ?thesis .
qed

text \<open>
  C9. \<open>initialFromTerminalAndVector\<close> over a range with integer bounds draws \<open>Q\<close> and
  \<open>v\<close> inside the range, and its answer \<open>P\<close> satisfies the round-trip law
  \<open>P + v = Q\<close> exactly.
\<close>

theorem initial_generated:
  assumes "valid_rng s" and "int_range r"
  shows "\<exists>Q v. run_state (initialFromTerminalAndVector r) s = (initial_question Q v, sdrop 4 s)
           \<and> in_range r Q \<and> in_range r v
           \<and> (fst (answer (initial_question Q v)) + fst v, snd (answer (initial_question Q v)) + snd v) = Q"
proof -
  obtain a b c d :: int where
    e: "sample r s = of_int a / 10" "sample r (stl s) = of_int b / 10"
       "sample r (stl (stl s)) = of_int c / 10" "sample r (stl (stl (stl s))) = of_int d / 10"
    and rg: "in_range r (of_int a / 10, of_int b / 10)" "in_range r (of_int c / 10, of_int d / 10)"
    using four_samples [OF assms] by blast
  show ?thesis
    by (rule exI [of _ "(of_int a / 10, of_int b / 10)"], rule exI [of _ "(of_int c / 10, of_int d / 10)"])
       (simp only: run_initialFromTerminalAndVector e rg initial_question_sel sub3_tenths
          prod.sel simp_thms diff_add_cancel)
qed

theorem initial_generated_witness:
  "\<exists>Q v. run_state (initialFromTerminalAndVector (difficultyRanges ''hard'')) (sconst (1 / 2))
           = (initial_question Q v, sdrop 4 (sconst (1 / 2)))
         \<and> in_range (difficultyRanges ''hard'') Q \<and> in_range (difficultyRanges ''hard'') v
         \<and> (fst (answer (initial_question Q v)) + fst v, snd (answer (initial_question Q v)) + snd v) = Q"
proof -
  have "valid_rng (sconst (1 / 2))" by (simp add: unit_interval_def)
  from initial_generated [OF this int_range_difficultyRanges] show ?thesis .
qed

lemma drawn_answer_terminal [simp]: "drawn_answer (terminal_question P v) = Some (add3 P v)"
  by (simp add: drawn_answer_def)

lemma drawn_answer_initial [simp]:
  "drawn_answer (initial_question Q v) = Some (fst Q - fst v, snd Q - snd v)"
  by (simp add: drawn_answer_def)

lemma generators_cases:
  "generators name = Some gen \<Longrightarrow> gen = terminalFromInitialAndVector \<or> gen = initialFromTerminalAndVector"
  by (simp add: generators_def split: if_splits)

text \<open>
  C10. Whichever registered generator runs, the answer of the question it builds is
  the one its drawing determines: prompt, answer and graph come from the same sampled
  values.
\<close>

theorem generated_drawing_consistent:
  assumes "valid_rng s" and "int_range r" and "generators name = Some gen"
  shows "drawn_answer (fst (run_state (gen r) s)) = Some (answer (fst (run_state (gen r) s)))"
proof -
  obtain a b c d :: int where
    e: "sample r s = of_int a / 10" "sample r (stl s) = of_int b / 10"
       "sample r (stl (stl s)) = of_int c / 10" "sample r (stl (stl (stl s))) = of_int d / 10"
    and "in_range r (of_int a / 10, of_int b / 10)" "in_range r (of_int c / 10, of_int d / 10)"
    using four_samples [OF assms(1,2)] by blast
  from assms(3) have "gen = terminalFromInitialAndVector \<or> gen = initialFromTerminalAndVector"
    by (rule generators_cases)
  then show ?thesis
  proof
    assume "gen = terminalFromInitialAndVector"
    then show ?thesis
      by (simp only: run_terminalFromInitialAndVector prod.sel drawn_answer_terminal terminal_question_sel)
  next
    assume "gen = initialFromTerminalAndVector"
    then show ?thesis
      by (simp only: run_initialFromTerminalAndVector e prod.sel drawn_answer_initial
            initial_question_sel sub3_tenths)
  qed
qed

theorem generated_drawing_consistent_witness:
  "drawn_answer (fst (run_state (initialFromTerminalAndVector (difficultyRanges ''medium'')) (sconst (1 / 2))))
     = Some (answer (fst (run_state (initialFromTerminalAndVector (difficultyRanges ''medium'')) (sconst (1 / 2)))))"
proof -
  have "valid_rng (sconst (1 / 2))" by (simp add: unit_interval_def)
  moreover have "generators ''initialFromTerminalAndVector'' = Some initialFromTerminalAndVector"
    by (simp add: generators_def)
  ultimately show ?thesis
    by (rule generated_drawing_consistent [OF _ int_range_difficultyRanges [of "''medium''"]])
qed

text \<open>
  C17. The inverse question never draws its unknown, except when it coincides with a
  given quantity: for \<open>Q = (a, b) / 10\<close> and \<open>v = (c, d) / 10\<close> on the sampler's grid
  of tenths, the answer \<open>P = Q - v\<close> is among the drawn points exactly when \<open>v = 0\<close>
  (then \<open>P = Q\<close>), \<open>Q = v\<close> (then \<open>P\<close> is the origin) or \<open>Q = 2v\<close> (then \<open>P = v\<close>).
\<close>

theorem initial_drawing_hides_answer:
  fixes a b c d :: int
  shows "answer (initial_question (of_int a / 10, of_int b / 10) (of_int c / 10, of_int d / 10))
           \<in> set (drawn_points (initial_question (of_int a / 10, of_int b / 10) (of_int c / 10, of_int d / 10)))
         \<longleftrightarrow> (c, d) = (0, 0) \<or> (a, b) = (c, d) \<or> (a, b) = (2 * c, 2 * d)"
proof -
  let ?Q = "(of_int a / 10, of_int b / 10) :: point" and ?v = "(of_int c / 10, of_int d / 10) :: point"
  have P: "answer (initial_question ?Q ?v) = (of_int a / 10 - of_int c / 10, of_int b / 10 - of_int d / 10)"
    by (simp only: initial_question_sel sub3_tenths)
  have pts: "drawn_points (initial_question ?Q ?v) = [?Q, (0, 0), ?v]"
    by (simp add: drawn_points_def)
  show ?thesis
    unfolding pts P by auto
qed

subsection \<open>The fixed difficulty\<close>

lemma medium_samples:
  assumes "valid_rng s"
  obtains a b c d :: int where
    "sample (difficultyRanges ''medium'') s = of_int a" "sample (difficultyRanges ''medium'') (stl s) = of_int b"
    "sample (difficultyRanges ''medium'') (stl (stl s)) = of_int c"
    "sample (difficultyRanges ''medium'') (stl (stl (stl s))) = of_int d"
    "\<bar>a\<bar> \<le> 10" "\<bar>b\<bar> \<le> 10" "\<bar>c\<bar> \<le> 10" "\<bar>d\<bar> \<le> 10"
proof -
  have v: "valid_rng (stl s)" "valid_rng (stl (stl s))" "valid_rng (stl (stl (stl s)))"
    using assms by blast+
  obtain a where a: "sample (difficultyRanges ''medium'') s = of_int a" "-10 \<le> a" "a \<le> 10"
    using rndNum_medium_range [OF valid_rng_shd [OF assms]] by blast
  obtain b where b: "sample (difficultyRanges ''medium'') (stl s) = of_int b" "-10 \<le> b" "b \<le> 10"
    using rndNum_medium_range [OF valid_rng_shd [OF v(1)]] by blast
  obtain c where c: "sample (difficultyRanges ''medium'') (stl (stl s)) = of_int c" "-10 \<le> c" "c \<le> 10"
    using rndNum_medium_range [OF valid_rng_shd [OF v(2)]] by blast
  obtain d where d: "sample (difficultyRanges ''medium'') (stl (stl (stl s))) = of_int d" "-10 \<le> d" "d \<le> 10"
    using rndNum_medium_range [OF valid_rng_shd [OF v(3)]] by blast
  from a b c d show ?thesis by (intro that [of a b c d]) simp_all
qed

lemma add3_int: "add3 (of_int a, of_int b) (of_int c, of_int d) = (of_int (a + c), of_int (b + d))"
  by (simp del: of_int_add add: of_int_add [symmetric])

lemma sub3_int: "sub3 (of_int a, of_int b) (of_int c, of_int d) = (of_int (a - c), of_int (b - d))"
  by (simp del: of_int_diff add: of_int_diff [symmetric])


end
