(* ===== verification/Tolerance.thy ===== *)
theory Tolerance
  imports JsNum
begin

text \<open>
  The tolerance comparator of src/app.js: \<open>nearlyEqual\<close> (lines 48--51) and
  \<open>pairEqual\<close> (lines 53--55). Operands are JavaScript Numbers, because the
  answer checker feeds them what \<open>parseFloat\<close> returns for the user's fields, which
  may be \<open>NaN\<close> or an infinity.
\<close>

text \<open>The default tolerance \<open>1e-2\<close>.\<close>

definition default_tol :: jsnum where
  "default_tol = Num (1 / 100)"

definition nearlyEqual :: "jsnum \<Rightarrow> jsnum \<Rightarrow> jsnum \<Rightarrow> bool" where
  "nearlyEqual a b tol =
     (if is_nan a \<or> is_nan b then False
      else js_le (js_abs (js_sub a b)) tol)"

fun pairEqual :: "jsnum \<times> jsnum \<Rightarrow> jsnum \<times> jsnum \<Rightarrow> jsnum \<Rightarrow> bool" where
  "pairEqual (a, b) (c, d) tol = (nearlyEqual a c tol \<and> nearlyEqual b d tol)"

subsection \<open>Behaviour of the comparator\<close>

lemma nearlyEqual_Num [simp]: "nearlyEqual (Num x) (Num y) (Num t) \<longleftrightarrow> \<bar>x - y\<bar> \<le> t"
  by (simp add: nearlyEqual_def)

text \<open>
  C6. With a finite tolerance, \<open>nearlyEqual\<close> holds exactly for two finite numbers
  whose distance is at most the tolerance: \<open>NaN\<close> and the infinities are never
  nearly equal to anything, not even to themselves.
\<close>

theorem nearlyEqual_iff:
  "nearlyEqual a b (Num t) \<longleftrightarrow> (\<exists>x y. a = Num x \<and> b = Num y \<and> \<bar>x - y\<bar> \<le> t)"
  by (cases a; cases b) (simp_all add: nearlyEqual_def js_sub_def)

lemma nearlyEqual_finite: "nearlyEqual a b (Num t) \<Longrightarrow> \<exists>x y. a = Num x \<and> b = Num y"
  by (cases a; cases b) (simp_all add: nearlyEqual_def js_sub_def)

lemma nearlyEqual_sym: "nearlyEqual a b tol = nearlyEqual b a tol"
  by (auto simp: nearlyEqual_def js_abs_sub_commute)

text \<open>
  C18. \<open>pairEqual\<close> accepts a pair exactly when both coordinates are finite and each is
  within the (finite) tolerance of the corresponding coordinate.
\<close>

theorem pairEqual_iff:
  "pairEqual (a, b) (c, d) (Num t) \<longleftrightarrow>
     (\<exists>x y x' y'. a = Num x \<and> b = Num y \<and> c = Num x' \<and> d = Num y' \<and>
        \<bar>x - x'\<bar> \<le> t \<and> \<bar>y - y'\<bar> \<le> t)"
  (is "?L \<longleftrightarrow> ?R")
proof
  assume ?L
  then have ac: "nearlyEqual a c (Num t)" and bd: "nearlyEqual b d (Num t)" by simp_all
  from nearlyEqual_finite [OF ac] nearlyEqual_finite [OF bd]
  obtain x x' y y' where "a = Num x" "c = Num x'" "b = Num y" "d = Num y'" by blast
  with ac bd show ?R by auto
next
  assume ?R
  then show ?L by auto
qed

end
