(* ===== verification/Graph.thy ===== *)
theory Graph
  imports JsNum
begin

text \<open>
  The graph engine of src/app.js, \<open>Graph.create\<close> (lines 58--169): the closure state
  (the canvas, its 2D context and the current \<open>bounds\<close>) is the record \<open>graph\<close>; the
  context's drawing calls are recorded, in order, in a log of canvas commands, so that
  \<open>renderScene\<close> is a function from a graph to the graph with the commands it issued
  appended. \<open>canvas.getBoundingClientRect()\<close> (the layout size in CSS pixels) and
  \<open>window.devicePixelRatio\<close> belong to the browser: the first is a field the layout
  sets, the second a parameter of \<open>resize\<close>. Screen coordinates are JavaScript Numbers
  (\<open>jsnum\<close>), since the transform divides by the width of the bounds and of the canvas.
\<close>

record bounds =
  xMin :: real
  xMax :: real
  yMin :: real
  yMax :: real

record rect =
  rect_width :: real
  rect_height :: real

datatype canvas_op =
    ClearRect real real real real
  | SetTransform real
  | Save
  | Restore
  | SetLineWidth real
  | SetStrokeStyle string
  | SetFillStyle string
  | SetFont string
  | BeginPath
  | MoveTo jsnum jsnum
  | LineTo jsnum jsnum
  | Arc jsnum jsnum real real real
  | ClosePath
  | Stroke
  | Fill
  | FillText string jsnum jsnum

record graph =
  g_bounds :: bounds
  g_rect :: rect
  g_width :: real
  g_height :: real
  g_log :: "canvas_op list"

subsection \<open>The coordinate transform (lines 73--90)\<close>

definition setBounds :: "bounds \<Rightarrow> graph \<Rightarrow> graph" where
  "setBounds b g = g\<lparr>g_bounds := b\<rparr>"

definition worldToScreen :: "bounds \<Rightarrow> rect \<Rightarrow> point \<Rightarrow> jsnum \<times> jsnum" where
  "worldToScreen b r pt =
     (js_mul (js_div (js_sub (Num (fst pt)) (Num (xMin b))) (js_sub (Num (xMax b)) (Num (xMin b))))
             (Num (rect_width r)),
      js_sub (Num (rect_height r))
        (js_mul (js_div (js_sub (Num (snd pt)) (Num (yMin b))) (js_sub (Num (yMax b)) (Num (yMin b))))
                (Num (rect_height r))))"

definition screenToWorld :: "bounds \<Rightarrow> rect \<Rightarrow> real \<Rightarrow> real \<Rightarrow> jsnum \<times> jsnum" where
  "screenToWorld b r px py =
     (js_add (Num (xMin b)) (js_mul (js_div (Num px) (Num (rect_width r))) (js_sub (Num (xMax b)) (Num (xMin b)))),
      js_add (Num (yMin b))
        (js_mul (js_div (js_sub (Num (rect_height r)) (Num py)) (Num (rect_height r)))
                (js_sub (Num (yMax b)) (Num (yMin b)))))"

subsection \<open>Resizing and creation (lines 59--73)\<close>

text \<open>
  \<open>resize()\<close>: the CSS size is the layout size, or the current buffer size when the
  layout reports zero; the buffer becomes \<open>Math.round(css * dpr)\<close> pixels and the
  context is scaled by \<open>dpr\<close> (\<open>window.devicePixelRatio || 1\<close>).
\<close>

definition resize :: "real \<Rightarrow> graph \<Rightarrow> graph" where
  "resize dpr_env g =
     (let dpr = (if dpr_env = 0 then 1 else dpr_env);
          cssW = (if rect_width (g_rect g) = 0 then g_width g else rect_width (g_rect g));
          cssH = (if rect_height (g_rect g) = 0 then g_height g else rect_height (g_rect g))
      in g\<lparr>g_width := of_int \<lfloor>cssW * dpr + 1 / 2\<rfloor>, g_height := of_int \<lfloor>cssH * dpr + 1 / 2\<rfloor>,
           g_log := g_log g @ [SetTransform dpr]\<rparr>)"

definition default_bounds :: bounds where
  "default_bounds = \<lparr>xMin = -10, xMax = 10, yMin = -10, yMax = 10\<rparr>"

definition graph_create :: "rect \<Rightarrow> real \<Rightarrow> real \<Rightarrow> real \<Rightarrow> graph" where
  "graph_create r w h dpr_env =
     resize dpr_env \<lparr>g_bounds = default_bounds, g_rect = r, g_width = w, g_height = h, g_log = []\<rparr>"

subsection \<open>Grid, points and arrows (lines 92--164)\<close>

definition clear :: "graph \<Rightarrow> canvas_op list" where
  "clear g = [ClearRect 0 0 (g_width g) (g_height g)]"

definition pickStep :: "real \<times> real \<Rightarrow> real" where
  "pickStep sp =
     (let s = max \<bar>fst sp\<bar> \<bar>snd sp\<bar>
      in if s \<le> 10 then 1 else if s \<le> 20 then 2 else if s \<le> 50 then 5 else 10)"

text \<open>
  The loop \<open>for (let x = start; x <= hi; x += step)\<close>: the values it visits, in order.
  A non-positive step would make it run forever, which is \<open>None\<close>.
\<close>

partial_function (option) grid_from :: "real \<Rightarrow> real \<Rightarrow> real \<Rightarrow> real list option" where
  "grid_from x hi step =
     (if x \<le> hi then Option.bind (grid_from (x + step) hi step) (\<lambda>xs. Some (x # xs)) else Some [])"

definition grid_start :: "real \<Rightarrow> real \<Rightarrow> real" where
  "grid_start lo step = of_int \<lceil>lo / step\<rceil> * step"

definition vline :: "bounds \<Rightarrow> rect \<Rightarrow> real \<Rightarrow> canvas_op list" where
  "vline b r x = (let sx = fst (worldToScreen b r (x, 0))
                  in [BeginPath, MoveTo sx (Num 0), LineTo sx (Num (rect_height r)), Stroke])"

definition hline :: "bounds \<Rightarrow> rect \<Rightarrow> real \<Rightarrow> canvas_op list" where
  "hline b r y = (let sy = snd (worldToScreen b r (0, y))
                  in [BeginPath, MoveTo (Num 0) sy, LineTo (Num (rect_width r)) sy, Stroke])"

text \<open>The commands of \<open>drawGrid\<close> when its two loops visit \<open>xs\<close> and \<open>ys\<close>.\<close>

definition grid_ops :: "bounds \<Rightarrow> rect \<Rightarrow> real list \<Rightarrow> real list \<Rightarrow> canvas_op list" where
  "grid_ops b r xs ys =
     [Save, SetLineWidth 1, SetStrokeStyle ''rgba(255,255,255,0.07)'']
     @ concat (map (vline b r) xs) @ concat (map (hline b r) ys)
     @ [SetStrokeStyle ''rgba(255,255,255,0.35)'']
     @ vline b r 0 @ hline b r 0 @ [Restore]"

definition drawGrid :: "graph \<Rightarrow> canvas_op list option" where
  "drawGrid g =
     (let b = g_bounds g; r = g_rect g; step = pickStep (xMin b, xMax b)
      in Option.bind (grid_from (grid_start (xMin b) step) (xMax b) step) (\<lambda>xs.
         Option.bind (grid_from (grid_start (yMin b) step) (yMax b) step) (\<lambda>ys.
         Some (grid_ops b r xs ys))))"

definition drawPoint :: "bounds \<Rightarrow> rect \<Rightarrow> point \<Rightarrow> string \<Rightarrow> string \<Rightarrow> canvas_op list" where
  "drawPoint b r pt color label =
     (let (x, y) = worldToScreen b r pt
      in [Save, SetFillStyle color, BeginPath, Arc x y 4 0 (pi * 2), Fill]
         @ (if label \<noteq> [] then [SetFillStyle ''rgba(229,231,235,0.9)'', SetFont ''12px system-ui'',
                                 FillText label (js_add x (Num 6)) (js_sub y (Num 6))] else [])
         @ [Restore])"

text \<open>The two base corners of the arrowhead, \<open>ah = 10\<close> pixels behind the tip \<open>(x2, y2)\<close>.\<close>

definition arrow_head :: "jsnum \<Rightarrow> jsnum \<Rightarrow> jsnum \<Rightarrow> jsnum \<Rightarrow> (jsnum \<times> jsnum) \<times> (jsnum \<times> jsnum)" where
  "arrow_head x2 y2 ux uy =
     (let ah = Num 10; h = Num (1 / 2)
      in ((js_sub x2 (js_mul ah (js_sub ux (js_mul h uy))), js_sub y2 (js_mul ah (js_add uy (js_mul h ux)))),
          (js_sub x2 (js_mul ah (js_add ux (js_mul h uy))), js_sub y2 (js_mul ah (js_sub uy (js_mul h ux))))))"

definition drawArrow :: "bounds \<Rightarrow> rect \<Rightarrow> point \<Rightarrow> point \<Rightarrow> string \<Rightarrow> canvas_op list" where
  "drawArrow b r p_from p_to color =
     (let (x1, y1) = worldToScreen b r p_from; (x2, y2) = worldToScreen b r p_to;
          dx = js_sub x2 x1; dy = js_sub y2 y1;
          len = js_or (js_hypot dx dy) (Num 1);
          ux = js_div dx len; uy = js_div dy len;
          ((ax, ay), (bx, by)) = arrow_head x2 y2 ux uy
      in [Save, SetStrokeStyle color, SetLineWidth 2,
          BeginPath, MoveTo x1 y1, LineTo x2 y2, Stroke,
          BeginPath, MoveTo x2 y2, LineTo ax ay, LineTo bx by, ClosePath,
          SetFillStyle color, Fill, Restore])"

text \<open>A scene item: \<open>{type: 'point', p, label, color}\<close> or \<open>{type: 'arrow', from, to, color}\<close>.\<close>

datatype scene_item = ScenePoint point string string | SceneArrow point point string

fun item_ops :: "bounds \<Rightarrow> rect \<Rightarrow> scene_item \<Rightarrow> canvas_op list" where
  "item_ops b r (ScenePoint p label color) = drawPoint b r p color label"
| "item_ops b r (SceneArrow f t color) = drawArrow b r f t color"

definition renderScene :: "scene_item list \<Rightarrow> graph \<Rightarrow> graph option" where
  "renderScene scene g =
     Option.bind (drawGrid g) (\<lambda>grid.
       Some (g\<lparr>g_log := g_log g @ clear g @ grid @ concat (map (item_ops (g_bounds g) (g_rect g)) scene)\<rparr>))"

text \<open>The interface \<open>create\<close> returns: \<open>{ setBounds, renderScene, screenToWorld }\<close>.\<close>

definition graph_screenToWorld :: "graph \<Rightarrow> real \<Rightarrow> real \<Rightarrow> jsnum \<times> jsnum" where
  "graph_screenToWorld g px py = screenToWorld (g_bounds g) (g_rect g) px py"

subsection \<open>The transform and its inverse\<close>

definition nondegenerate :: "bounds \<Rightarrow> rect \<Rightarrow> bool" where
  "nondegenerate b r \<longleftrightarrow> xMin b \<noteq> xMax b \<and> yMin b \<noteq> yMax b \<and> rect_width r \<noteq> 0 \<and> rect_height r \<noteq> 0"

lemma worldToScreen_finite:
  assumes "xMin b \<noteq> xMax b" and "yMin b \<noteq> yMax b"
  shows "worldToScreen b r (x, y) =
           (Num ((x - xMin b) / (xMax b - xMin b) * rect_width r),
            Num (rect_height r - (y - yMin b) / (yMax b - yMin b) * rect_height r))"
  using assms by (simp add: worldToScreen_def)

lemma screenToWorld_finite:
  assumes "rect_width r \<noteq> 0" and "rect_height r \<noteq> 0"
  shows "screenToWorld b r px py =
           (Num (xMin b + px / rect_width r * (xMax b - xMin b)),
            Num (yMin b + (rect_height r - py) / rect_height r * (yMax b - yMin b)))"
  using assms by (simp add: screenToWorld_def)

text \<open>
  C11. For non-degenerate bounds and a canvas of non-zero size, \<open>screenToWorld\<close> undoes
  \<open>worldToScreen\<close>: every world point maps to finite screen coordinates that map back
  to the point itself (exactly, in real arithmetic), for points inside the bounds or not.
\<close>

theorem world_screen_roundtrip:
  assumes "nondegenerate b r"
  shows "\<exists>sx sy. worldToScreen b r (x, y) = (Num sx, Num sy) \<and> screenToWorld b r sx sy = (Num x, Num y)"
proof -
  from assms have nd: "xMax b - xMin b \<noteq> 0" "yMax b - yMin b \<noteq> 0" "rect_width r \<noteq> 0" "rect_height r \<noteq> 0"
    by (auto simp: nondegenerate_def)
  define sx where "sx = (x - xMin b) / (xMax b - xMin b) * rect_width r"
  define sy where "sy = rect_height r - (y - yMin b) / (yMax b - yMin b) * rect_height r"
  have "worldToScreen b r (x, y) = (Num sx, Num sy)"
    using nd by (simp add: worldToScreen_finite sx_def sy_def)
  moreover have "xMin b + sx / rect_width r * (xMax b - xMin b) = x"
    using nd by (simp add: sx_def)
  moreover have "yMin b + (rect_height r - sy) / rect_height r * (yMax b - yMin b) = y"
    using nd by (simp add: sy_def)
  ultimately show ?thesis
    using nd by (simp add: screenToWorld_finite)
qed

theorem world_screen_roundtrip_witness:
  "\<exists>sx sy. worldToScreen \<lparr>xMin = -10, xMax = 10, yMin = -10, yMax = 10\<rparr> \<lparr>rect_width = 100, rect_height = 100\<rparr> (3, -7)
             = (Num sx, Num sy)
      \<and> screenToWorld \<lparr>xMin = -10, xMax = 10, yMin = -10, yMax = 10\<rparr> \<lparr>rect_width = 100, rect_height = 100\<rparr> sx sy
             = (Num 3, Num (-7))"
  by (rule world_screen_roundtrip) (simp add: nondegenerate_def)

text \<open>
  C12. Conversely, for non-degenerate bounds and a canvas of non-zero size, every
  pixel position maps to a finite world point that \<open>worldToScreen\<close> maps back to
  the same pixel: a click is located exactly.
\<close>

theorem screen_world_roundtrip:
  assumes "nondegenerate b r"
  shows "\<exists>x y. screenToWorld b r px py = (Num x, Num y) \<and> worldToScreen b r (x, y) = (Num px, Num py)"
proof -
  from assms have nd: "xMax b - xMin b \<noteq> 0" "yMax b - yMin b \<noteq> 0" "rect_width r \<noteq> 0" "rect_height r \<noteq> 0"
    by (auto simp: nondegenerate_def)
  define x where "x = xMin b + px / rect_width r * (xMax b - xMin b)"
  define y where "y = yMin b + (rect_height r - py) / rect_height r * (yMax b - yMin b)"
  have "screenToWorld b r px py = (Num x, Num y)"
    using nd by (simp add: screenToWorld_finite x_def y_def)
  moreover have "(x - xMin b) / (xMax b - xMin b) * rect_width r = px"
    using nd by (simp add: x_def)
  moreover have "rect_height r - (y - yMin b) / (yMax b - yMin b) * rect_height r = py"
    using nd by (simp add: y_def)
  ultimately show ?thesis
    using nd by (simp add: worldToScreen_finite)
qed

theorem screen_world_roundtrip_witness:
  "\<exists>x y. screenToWorld \<lparr>xMin = -10, xMax = 10, yMin = -10, yMax = 10\<rparr> \<lparr>rect_width = 400, rect_height = 300\<rparr> 123 45
           = (Num x, Num y)
      \<and> worldToScreen \<lparr>xMin = -10, xMax = 10, yMin = -10, yMax = 10\<rparr> \<lparr>rect_width = 400, rect_height = 300\<rparr> (x, y)
           = (Num 123, Num 45)"
  by (rule screen_world_roundtrip) (simp add: nondegenerate_def)

text \<open>
  C23. \<open>setBounds\<close> accepts degenerate bounds, which the specification asks to reject:
  with \<open>xMin = xMax\<close> every point's screen \<open>x\<close> is \<open>NaN\<close> or an infinity, so
  nothing the renderer draws afterwards lands on the canvas.
\<close>

theorem degenerate_bounds_not_finite:
  assumes "xMin b = xMax b"
  shows "g_bounds (setBounds b g) = b
       \<and> \<not> is_finite (fst (worldToScreen (g_bounds (setBounds b g)) (g_rect g) p))"
proof -
  have "js_sub (Num (xMax b)) (Num (xMin b)) = Num 0" using assms by simp
  then show ?thesis by (simp add: setBounds_def worldToScreen_def)
qed

theorem degenerate_bounds_not_finite_witness:
  "\<not> is_finite (fst (worldToScreen \<lparr>xMin = 5, xMax = 5, yMin = -10, yMax = 10\<rparr>
                                   \<lparr>rect_width = 100, rect_height = 100\<rparr> (3, 0)))"
  using degenerate_bounds_not_finite
    [of "\<lparr>xMin = 5, xMax = 5, yMin = -10, yMax = 10\<rparr>"
        "\<lparr>g_bounds = \<lparr>xMin = -10, xMax = 10, yMin = -10, yMax = 10\<rparr>, g_rect = \<lparr>rect_width = 100, rect_height = 100\<rparr>,
          g_width = 100, g_height = 100, g_log = []\<rparr>" "(3, 0)"]
  by (simp add: setBounds_def)

subsection \<open>The grid loop\<close>

lemma pickStep_cases: "pickStep sp \<in> {1, 2, 5, 10}"
  by (simp add: pickStep_def Let_def)

lemma pickStep_pos [simp]: "0 < pickStep sp"
  using pickStep_cases [of sp] by auto

lemma grid_from_eq:
  assumes "0 < step"
  shows "grid_from x hi step = Some (map (\<lambda>k. x + of_nat k * step) [0..<nat \<lfloor>(hi - x) / step + 1\<rfloor>])"
proof (induction "nat \<lfloor>(hi - x) / step + 1\<rfloor>" arbitrary: x)
  case 0
  then have "(hi - x) / step < 0" by linarith
  then have "hi < x" using assms by (simp add: divide_less_0_iff)
  with "0.hyps" show ?case by (subst grid_from.simps) simp
next
  case (Suc n)
  then have "0 \<le> (hi - x) / step" by linarith
  then have le: "x \<le> hi" using assms by (simp add: zero_le_divide_iff)
  have "(hi - (x + step)) / step + 1 = (hi - x) / step"
    using assms by (simp add: field_simps)
  with Suc.hyps(2) have n: "n = nat \<lfloor>(hi - (x + step)) / step + 1\<rfloor>" by linarith
  have "map (\<lambda>k. x + of_nat k * step) [0..<Suc n]
        = x # map (\<lambda>k. x + step + of_nat k * step) [0..<n]"
    by (simp add: upt_conv_Cons map_Suc_upt [symmetric] algebra_simps del: upt_Suc)
  moreover from Suc.hyps(1) [OF n] have
    "grid_from (x + step) hi step = Some (map (\<lambda>k. x + step + of_nat k * step) [0..<n])"
    by (simp only: n [symmetric])
  ultimately show ?case
    using le Suc.hyps(2) by (subst grid_from.simps) simp
qed

lemma grid_from_Some:
  assumes "0 < step"
  shows "\<exists>xs. grid_from x hi step = Some xs"
  using grid_from_eq [OF assms] by blast

lemma grid_start_ge: "0 < step \<Longrightarrow> lo \<le> grid_start lo step"
  unfolding grid_start_def by (simp add: pos_divide_le_eq [symmetric])

lemma grid_values_set:
  assumes step: "0 < step"
  shows "set (map (\<lambda>k. grid_start lo step + of_nat k * step) [0..<nat \<lfloor>(hi - grid_start lo step) / step + 1\<rfloor>])
         = {v. \<exists>m::int. v = of_int m * step \<and> lo \<le> v \<and> v \<le> hi}"
    (is "set (map ?f [0..<?n]) = ?M")
proof (intro equalityI subsetI)
  let ?c = "\<lceil>lo / step\<rceil>"
  have start: "grid_start lo step = of_int ?c * step" by (simp add: grid_start_def)
  fix v assume "v \<in> set (map ?f [0..<?n])"
  then obtain k where k: "k < ?n" and v: "v = ?f k" by auto
  from k have "of_nat k \<le> (hi - grid_start lo step) / step" by linarith
  then have "of_nat k * step \<le> hi - grid_start lo step" using step by (simp add: le_divide_eq)
  then have vhi: "v \<le> hi" using v by simp
  have "0 \<le> of_nat k * step" using step by simp
  moreover have "lo \<le> grid_start lo step" by (rule grid_start_ge [OF step])
  ultimately have lov: "lo \<le> v" using v by simp
  have "v = of_int (?c + int k) * step" using v start by (simp add: algebra_simps)
  with lov vhi show "v \<in> ?M" by blast
next
  let ?c = "\<lceil>lo / step\<rceil>"
  have start: "grid_start lo step = of_int ?c * step" by (simp add: grid_start_def)
  fix v assume "v \<in> ?M"
  then obtain m :: int where v: "v = of_int m * step" and lo: "lo \<le> v" and hi: "v \<le> hi" by blast
  from lo v step have "lo / step \<le> of_int m" by (simp add: divide_le_eq)
  then have cm: "?c \<le> m" by (simp add: ceiling_le_iff)
  have "(hi - grid_start lo step) / step \<ge> of_int (m - ?c)"
    using hi v start step by (simp add: le_divide_eq algebra_simps)
  then have "m - ?c < \<lfloor>(hi - grid_start lo step) / step + 1\<rfloor>" by linarith
  then have "nat (m - ?c) < ?n" using cm by linarith
  moreover have "v = ?f (nat (m - ?c))" using v start cm by (simp add: algebra_simps)
  ultimately show "v \<in> set (map ?f [0..<?n])" by auto
qed

lemma grid_from_start:
  assumes "0 < step"
  shows "\<exists>xs. grid_from (grid_start lo step) hi step = Some xs \<and> sorted_wrt (<) xs
           \<and> set xs = {v. \<exists>m::int. v = of_int m * step \<and> lo \<le> v \<and> v \<le> hi}"
proof -
  let ?f = "\<lambda>k. grid_start lo step + of_nat k * step"
  have "sorted_wrt (<) (map ?f [0..<nat \<lfloor>(hi - grid_start lo step) / step + 1\<rfloor>])"
    using assms by (simp add: sorted_wrt_map sorted_wrt_iff_nth_less)
  then show ?thesis
    using grid_from_eq [OF assms] grid_values_set [OF assms] by blast
qed

text \<open>
  C16. \<open>drawGrid\<close> always terminates, and its vertical and horizontal lines are drawn,
  left to right and bottom to top, at exactly the multiples of the step that lie in
  \<open>[xMin, xMax]\<close> and \<open>[yMin, yMax]\<close>; the step is \<open>pickStep([xMin, xMax])\<close>,
  chosen from the horizontal bounds alone, for both directions.
\<close>

theorem drawGrid_lines:
  "\<exists>xs ys. drawGrid g = Some (grid_ops (g_bounds g) (g_rect g) xs ys)
     \<and> sorted_wrt (<) xs \<and> sorted_wrt (<) ys
     \<and> set xs = {v. \<exists>m::int. v = of_int m * pickStep (xMin (g_bounds g), xMax (g_bounds g))
                     \<and> xMin (g_bounds g) \<le> v \<and> v \<le> xMax (g_bounds g)}
     \<and> set ys = {v. \<exists>m::int. v = of_int m * pickStep (xMin (g_bounds g), xMax (g_bounds g))
                     \<and> yMin (g_bounds g) \<le> v \<and> v \<le> yMax (g_bounds g)}"
proof -
  let ?b = "g_bounds g"
  let ?s = "pickStep (xMin ?b, xMax ?b)"
  obtain xs where xs: "grid_from (grid_start (xMin ?b) ?s) (xMax ?b) ?s = Some xs" "sorted_wrt (<) xs"
    "set xs = {v. \<exists>m::int. v = of_int m * ?s \<and> xMin ?b \<le> v \<and> v \<le> xMax ?b}"
    using grid_from_start [OF pickStep_pos] by blast
  obtain ys where ys: "grid_from (grid_start (yMin ?b) ?s) (yMax ?b) ?s = Some ys" "sorted_wrt (<) ys"
    "set ys = {v. \<exists>m::int. v = of_int m * ?s \<and> yMin ?b \<le> v \<and> v \<le> yMax ?b}"
    using grid_from_start [OF pickStep_pos] by blast
  show ?thesis
    using xs ys by (rule_tac exI [of _ xs], rule_tac exI [of _ ys]) (simp add: drawGrid_def Let_def)
qed

lemma drawGrid_Some: "\<exists>ops. drawGrid g = Some ops"
proof -
  let ?b = "g_bounds g"
  let ?s = "pickStep (xMin ?b, xMax ?b)"
  obtain xs where "grid_from (grid_start (xMin ?b) ?s) (xMax ?b) ?s = Some xs"
    using grid_from_Some [OF pickStep_pos] by blast
  moreover obtain ys where "grid_from (grid_start (yMin ?b) ?s) (yMax ?b) ?s = Some ys"
    using grid_from_Some [OF pickStep_pos] by blast
  ultimately show ?thesis by (simp add: drawGrid_def Let_def)
qed

text \<open>\<open>renderScene\<close> always returns, and only appends to the command log.\<close>

lemma renderScene_eq:
  "\<exists>grid. drawGrid g = Some grid \<and>
     renderScene scene g = Some (g\<lparr>g_log := g_log g @ clear g @ grid @ concat (map (item_ops (g_bounds g) (g_rect g)) scene)\<rparr>)"
  using drawGrid_Some [of g] by (auto simp: renderScene_def)

subsection \<open>The arrowhead\<close>

lemma unit_dir:
  assumes "(dx, dy) \<noteq> (0, 0)"
  shows "(dx / sqrt (dx\<^sup>2 + dy\<^sup>2))\<^sup>2 + (dy / sqrt (dx\<^sup>2 + dy\<^sup>2))\<^sup>2 = 1"
proof -
  have pos: "0 < dx\<^sup>2 + dy\<^sup>2" using assms by (simp add: sum_power2_gt_zero_iff)
  then show ?thesis using assms by (simp add: power_divide add_divide_distrib [symmetric])
qed

text \<open>
  C27. The arrowhead has a constant size in pixels, whatever the zoom, and points
  along the arrow: for an arrow whose ends land on distinct finite pixels,
  \<open>drawArrow\<close> strokes the shaft between them and fills the triangle whose two base
  corners lie \<open>5\<surd>5\<close> (about 11.2) pixels from the tip and whose base midpoint lies
  \<open>ah = 10\<close> pixels from the tip back towards the tail.
\<close>

theorem drawArrow_head_size:
  assumes "worldToScreen b r p_from = (Num x1, Num y1)" and "worldToScreen b r p_to = (Num x2, Num y2)"
    and "(x1, y1) \<noteq> (x2, y2)"
  shows "\<exists>ax ay bx by.
           drawArrow b r p_from p_to c =
             [Save, SetStrokeStyle c, SetLineWidth 2, BeginPath, MoveTo (Num x1) (Num y1),
              LineTo (Num x2) (Num y2), Stroke, BeginPath, MoveTo (Num x2) (Num y2),
              LineTo (Num ax) (Num ay), LineTo (Num bx) (Num by), ClosePath,
              SetFillStyle c, Fill, Restore]
           \<and> (ax - x2)\<^sup>2 + (ay - y2)\<^sup>2 = 125 \<and> (bx - x2)\<^sup>2 + (by - y2)\<^sup>2 = 125
           \<and> (ax + bx) / 2 = x2 - 10 * (x2 - x1) / sqrt ((x2 - x1)\<^sup>2 + (y2 - y1)\<^sup>2)
           \<and> (ay + by) / 2 = y2 - 10 * (y2 - y1) / sqrt ((x2 - x1)\<^sup>2 + (y2 - y1)\<^sup>2)"
proof -
  define dx where "dx = x2 - x1"
  define dy where "dy = y2 - y1"
  define l where "l = sqrt (dx\<^sup>2 + dy\<^sup>2)"
  have nz: "(dx, dy) \<noteq> (0, 0)" using assms(3) by (auto simp: dx_def dy_def)
  then have "0 < dx\<^sup>2 + dy\<^sup>2" by (simp add: sum_power2_gt_zero_iff)
  then have l: "0 < l" by (simp add: l_def)
  define ux where "ux = dx / l"
  define uy where "uy = dy / l"
  have u: "ux\<^sup>2 + uy\<^sup>2 = 1" using unit_dir [OF nz] by (simp add: ux_def uy_def l_def)
  have "js_hypot (Num dx) (Num dy) = Num l" by (simp add: l_def)
  with l have hyp: "js_or (js_hypot (Num dx) (Num dy)) (Num 1) = Num l"
    by (simp add: js_or_def)
  have ops: "drawArrow b r p_from p_to c =
             [Save, SetStrokeStyle c, SetLineWidth 2, BeginPath, MoveTo (Num x1) (Num y1),
              LineTo (Num x2) (Num y2), Stroke, BeginPath, MoveTo (Num x2) (Num y2),
              LineTo (Num (x2 - 10 * (ux - 1 / 2 * uy))) (Num (y2 - 10 * (uy + 1 / 2 * ux))),
              LineTo (Num (x2 - 10 * (ux + 1 / 2 * uy))) (Num (y2 - 10 * (uy - 1 / 2 * ux))), ClosePath,
              SetFillStyle c, Fill, Restore]"
    using assms(1,2) hyp l
    by (simp add: drawArrow_def arrow_head_def dx_def [symmetric] dy_def [symmetric] ux_def uy_def)
  have "(x2 - 10 * (ux - 1 / 2 * uy) - x2)\<^sup>2 + (y2 - 10 * (uy + 1 / 2 * ux) - y2)\<^sup>2 = 125 * (ux\<^sup>2 + uy\<^sup>2)"
    "(x2 - 10 * (ux + 1 / 2 * uy) - x2)\<^sup>2 + (y2 - 10 * (uy - 1 / 2 * ux) - y2)\<^sup>2 = 125 * (ux\<^sup>2 + uy\<^sup>2)"
    by (simp_all add: power2_eq_square algebra_simps)
  moreover have "(x2 - 10 * (ux - 1 / 2 * uy) + (x2 - 10 * (ux + 1 / 2 * uy))) / 2 = x2 - 10 * dx / l"
    "(y2 - 10 * (uy + 1 / 2 * ux) + (y2 - 10 * (uy - 1 / 2 * ux))) / 2 = y2 - 10 * dy / l"
    using l by (simp_all add: ux_def uy_def field_simps)
  ultimately show ?thesis using ops u by (auto simp: dx_def dy_def l_def)
qed

theorem drawArrow_head_size_witness:
  "\<exists>ax ay bx by.
     drawArrow default_bounds \<lparr>rect_width = 100, rect_height = 100\<rparr> (0, 0) (3, 4) ''#22c55e'' =
       [Save, SetStrokeStyle ''#22c55e'', SetLineWidth 2, BeginPath, MoveTo (Num 50) (Num 50),
        LineTo (Num 65) (Num 30), Stroke, BeginPath, MoveTo (Num 65) (Num 30),
        LineTo (Num ax) (Num ay), LineTo (Num bx) (Num by), ClosePath,
        SetFillStyle ''#22c55e'', Fill, Restore]
     \<and> (ax - 65)\<^sup>2 + (ay - 30)\<^sup>2 = 125 \<and> (bx - 65)\<^sup>2 + (by - 30)\<^sup>2 = 125
     \<and> (ax + bx) / 2 = 59 \<and> (ay + by) / 2 = 38"
proof -
  have "sqrt (625::real) = 25" by (rule real_sqrt_unique) simp_all
  then show ?thesis
    using drawArrow_head_size [of default_bounds "\<lparr>rect_width = 100, rect_height = 100\<rparr>" "(0, 0)" 50 50
        "(3, 4)" 65 30 "''#22c55e''"]
    by (simp add: worldToScreen_def default_bounds_def power2_eq_square)
qed

subsection \<open>Resizing\<close>

lemma resize_frame [simp]: "g_bounds (resize d g) = g_bounds g" "g_rect (resize d g) = g_rect g"
  by (simp_all add: resize_def Let_def)


text \<open>
  C28. When the layout gives the canvas a non-zero size, \<open>resize\<close> is idempotent: a
  second call recomputes the same buffer size and only re-issues the same scaling;
  the bounds are never touched.
\<close>

theorem resize_idempotent:
  assumes "rect_width (g_rect g) \<noteq> 0" and "rect_height (g_rect g) \<noteq> 0"
  shows "resize d (resize d g) = (resize d g)\<lparr>g_log := g_log (resize d g) @ [SetTransform (if d = 0 then 1 else d)]\<rparr>
       \<and> g_bounds (resize d g) = g_bounds g"
  using assms by (simp add: resize_def Let_def)

theorem resize_idempotent_witness:
  "resize 2 (resize 2 (graph_create \<lparr>rect_width = 400, rect_height = 300\<rparr> 300 150 2))
     = (resize 2 (graph_create \<lparr>rect_width = 400, rect_height = 300\<rparr> 300 150 2))
         \<lparr>g_log := [SetTransform 2, SetTransform 2, SetTransform 2]\<rparr>
   \<and> g_width (resize 2 (graph_create \<lparr>rect_width = 400, rect_height = 300\<rparr> 300 150 2)) = 800"
  using resize_idempotent [of "graph_create \<lparr>rect_width = 400, rect_height = 300\<rparr> 300 150 2" 2]
  by (simp add: graph_create_def resize_def Let_def)



end
