(* ===== verification/Session.thy ===== *)
theory Session
  imports Questions Tolerance Graph
begin

text \<open>
  The quiz session of src/app.js (lines 202--370): the module-level \<open>state\<close> object
  (score, total, streak, current question, graph), the page elements its handlers
  write (question text, answer fields, feedback, solution, scoreboard) and the event
  handlers \<open>nextQuestion\<close>, \<open>checkAnswer\<close>, \<open>revealSolution\<close>, the canvas click
  handler and the window resize listener. Everything the handlers change is a field of
  the record \<open>app\<close>; \<open>Math.random\<close> is its field \<open>s_rng\<close>. A handler returns
  \<open>None\<close> if it would not terminate, and otherwise the state after it, with the
  exception it throws if it throws one (the state is then the state at the throw, as
  the browser keeps it). The user's typing into an answer field is an event of the
  environment, \<open>TypeField\<close>.
\<close>

datatype js_error = TypeError

record field =
  f_id :: string
  f_value :: string

record app =
  s_correct :: nat
  s_total :: nat
  s_streak :: nat
  s_current :: "question option"
  s_graph :: "graph option"
  s_rng :: rng
  q_text :: string
  form :: "field list"
  feedback_class :: string
  feedback_text :: string
  solution_text :: string
  score_text :: string
  streak_text :: string

definition selectedTypes :: "string list" where
  "selectedTypes = [''terminalFromInitialAndVector'', ''initialFromTerminalAndVector'']"

definition buildInputs :: "answer_shape \<Rightarrow> field list" where
  "buildInputs shape =
     (case shape of
        ShapePair \<Rightarrow> [\<lparr>f_id = ''ans-x'', f_value = []\<rparr>, \<lparr>f_id = ''ans-y'', f_value = []\<rparr>]
      | ShapeScalar \<Rightarrow> [\<lparr>f_id = ''ans-s'', f_value = []\<rparr>])"

definition nat_text :: "nat \<Rightarrow> string" where
  "nat_text n = real_to_string (of_nat n)"

definition updateScoreboard :: "app \<Rightarrow> app" where
  "updateScoreboard s =
     s\<lparr>score_text := ''Score: '' @ nat_text (s_correct s) @ ''/'' @ nat_text (s_total s),
       streak_text := ''Streak: '' @ nat_text (s_streak s)\<rparr>"

definition setFeedback :: "bool \<Rightarrow> string \<Rightarrow> app \<Rightarrow> app" where
  "setFeedback ok msg s =
     s\<lparr>feedback_class := ''feedback '' @ (if ok then ''ok'' else ''no''), feedback_text := msg\<rparr>"

definition setSolution :: "string \<Rightarrow> app \<Rightarrow> app" where
  "setSolution txt s = s\<lparr>solution_text := txt\<rparr>"

text \<open>The scene of a question (lines 340--344): its points, then its arrows.\<close>

definition question_scene :: "question \<Rightarrow> scene_item list" where
  "question_scene q =
     map (\<lambda>d. ScenePoint (dp_p d) (dp_label d) ''#38bdf8'') (draw_points (draw q))
     @ map (\<lambda>d. SceneArrow (da_from d) (da_to d) ''#22c55e'') (draw_arrows (draw q))"

definition drawQuestionGraph :: "question \<Rightarrow> app \<Rightarrow> app option" where
  "drawQuestionGraph q s =
     (case s_graph s of
        None \<Rightarrow> Some s
      | Some g \<Rightarrow> map_option (\<lambda>g'. s\<lparr>s_graph := Some g'\<rparr>)
                    (renderScene (question_scene q) (setBounds default_bounds g)))"

text \<open>
  \<open>nextQuestion\<close> (lines 251--264). \<open>generators[choice(types)]\<close> is \<open>undefined\<close> when
  \<open>choice\<close> reads outside the array, and calling it throws a \<open>TypeError\<close>.
\<close>

definition nextQuestion :: "app \<Rightarrow> (js_error option \<times> app) option" where
  "nextQuestion s =
     (let types = selectedTypes;
          r = difficultyRanges ''medium'';
          (name, rest) = run_state (choice types) (s_rng s)
      in case Option.bind name generators of
           None \<Rightarrow> Some (Some TypeError, s\<lparr>s_rng := rest\<rparr>)
         | Some gen \<Rightarrow>
             (let (q, rest') = run_state (gen r) rest;
                  s1 = s\<lparr>s_rng := rest', s_current := Some q, q_text := prompt q,
                         form := buildInputs (answerShape q),
                         feedback_class := ''feedback'', feedback_text := []\<rparr>
              in map_option (\<lambda>s'. (None, s')) (drawQuestionGraph q (setSolution [] s1))))"

text \<open>
  \<open>getUserAnswer\<close> (lines 266--276): \<open>$('#ans-x')?.value\<close> is \<open>undefined\<close> when the
  field does not exist, and \<open>parseFloat(undefined)\<close> reads the text \<open>undefined\<close>.
\<close>

datatype user_answer = PairAns jsnum jsnum | ScalarAns jsnum

definition field_value :: "field list \<Rightarrow> string \<Rightarrow> string option" where
  "field_value fs i = map_option f_value (find (\<lambda>f. f_id f = i) fs)"

definition read_field :: "field list \<Rightarrow> string \<Rightarrow> jsnum" where
  "read_field fs i = parseFloat (case field_value fs i of None \<Rightarrow> ''undefined'' | Some v \<Rightarrow> v)"

definition getUserAnswer :: "answer_shape \<Rightarrow> field list \<Rightarrow> user_answer" where
  "getUserAnswer shape fs =
     (case shape of
        ShapePair \<Rightarrow> PairAns (read_field fs ''ans-x'') (read_field fs ''ans-y'')
      | ShapeScalar \<Rightarrow> ScalarAns (read_field fs ''ans-s''))"

text \<open>
  Whether the answer in the fields is accepted (lines 281--288). In the scalar branch
  \<open>q.answer\<close> is a pair, which JavaScript converts to \<open>NaN\<close>.
\<close>

definition answer_ok :: "question \<Rightarrow> field list \<Rightarrow> bool" where
  "answer_ok q fs =
     (case (answerShape q, getUserAnswer (answerShape q) fs) of
        (ShapePair, PairAns x y) \<Rightarrow> pairEqual (x, y) (Num (fst (answer q)), Num (snd (answer q))) default_tol
      | (ShapeScalar, ScalarAns v) \<Rightarrow> nearlyEqual v NaN default_tol
      | _ \<Rightarrow> False)"

definition checkAnswer :: "app \<Rightarrow> app" where
  "checkAnswer s =
     (case s_current s of
        None \<Rightarrow> s
      | Some q \<Rightarrow>
          (let ok = answer_ok q (form s);
               s1 = s\<lparr>s_total := s_total s + 1\<rparr>
           in updateScoreboard
                (if ok then setFeedback True ''Correct!''
                              (s1\<lparr>s_correct := s_correct s1 + 1, s_streak := s_streak s1 + 1\<rparr>)
                 else setFeedback False ''Not quite. Try another or reveal solution.''
                              (s1\<lparr>s_streak := 0\<rparr>))))"

definition revealSolution :: "app \<Rightarrow> app" where
  "revealSolution s =
     (case s_current s of None \<Rightarrow> s | Some q \<Rightarrow> setSolution (''Solution: '' @ explain q) s)"

text \<open>
  The canvas click handler (lines 351--364): the clicked world point, each coordinate
  snapped to the nearest half (\<open>Math.round(v * 2) / 2\<close>), written as text into the
  answer fields that exist.
\<close>

definition snap :: "jsnum \<Rightarrow> jsnum" where
  "snap v = js_div (js_round (js_mul v (Num 2))) (Num 2)"

fun set_field :: "string \<Rightarrow> string \<Rightarrow> field list \<Rightarrow> field list" where
  "set_field i v [] = []"
| "set_field i v (f # fs) = (if f_id f = i then f\<lparr>f_value := v\<rparr> # fs else f # set_field i v fs)"

definition canvasClick :: "real \<Rightarrow> real \<Rightarrow> app \<Rightarrow> app" where
  "canvasClick px py s =
     (case s_graph s of
        None \<Rightarrow> s
      | Some g \<Rightarrow>
          (let (xw, yw) = graph_screenToWorld g px py
           in case s_current s of
                Some q \<Rightarrow>
                  if answerShape q = ShapePair
                  then s\<lparr>form := set_field ''ans-y'' (js_to_string (snap yw))
                                   (set_field ''ans-x'' (js_to_string (snap xw)) (form s))\<rparr>
                  else s
              | None \<Rightarrow> s))"

text \<open>
  \<open>expandBounds\<close> (lines 320--334), which no handler calls: bounds around a set of
  points, padded by a fifth of their extent plus 2 and clamped to \<open>[-30, 30]\<close>.
\<close>

definition expandBounds :: "point list \<Rightarrow> bounds" where
  "expandBounds pts =
     (if pts = [] then \<lparr>xMin = -12, xMax = 12, yMin = -8, yMax = 8\<rparr>
      else let xs = map fst pts; ys = map snd pts;
               minX = Min (set xs); maxX = Max (set xs);
               minY = Min (set ys); maxY = Max (set ys);
               padX = (maxX - minX) * (2 / 10) + 2;
               padY = (maxY - minY) * (2 / 10) + 2
           in \<lparr>xMin = max (-30) (of_int \<lfloor>minX - padX\<rfloor>), xMax = min 30 (of_int \<lceil>maxX + padX\<rceil>),
               yMin = max (-30) (of_int \<lfloor>minY - padY\<rfloor>), yMax = min 30 (of_int \<lceil>maxY + padY\<rceil>)\<rparr>)"

text \<open>
  Start-up (lines 348--370): the scoreboard, then \<open>initGraph\<close>, which creates the graph
  when the page has a canvas (its layout size, buffer size and the pixel ratio are
  the parameters), sets the default bounds and renders the empty scene.
\<close>

definition empty_app :: "rng \<Rightarrow> app" where
  "empty_app r =
     \<lparr>s_correct = 0, s_total = 0, s_streak = 0, s_current = None, s_graph = None, s_rng = r,
      q_text = [], form = [], feedback_class = ''feedback'', feedback_text = [], solution_text = [],
      score_text = [], streak_text = []\<rparr>"

definition initGraph :: "(rect \<times> real \<times> real \<times> real) option \<Rightarrow> app \<Rightarrow> app option" where
  "initGraph canvas s =
     (case canvas of
        None \<Rightarrow> Some s
      | Some (r, w, h, dpr) \<Rightarrow>
          map_option (\<lambda>g. s\<lparr>s_graph := Some g\<rparr>)
            (renderScene [] (setBounds default_bounds (graph_create r w h dpr))))"

definition app_init :: "rng \<Rightarrow> (rect \<times> real \<times> real \<times> real) option \<Rightarrow> app option" where
  "app_init r canvas = initGraph canvas (updateScoreboard (empty_app r))"

subsection \<open>Events\<close>

datatype event =
    NextClick
  | SubmitClick
  | EnterKey
  | RevealClick
  | CanvasClickAt real real
  | WindowResize real
  | TypeField string string

text \<open>
  The click listener (lines 351--354) runs only for clicks on the canvas, so the offset
  \<open>(clientX - rect.left, clientY - rect.top)\<close> it receives lies in the canvas box; a
  click elsewhere on the page runs no handler.
\<close>

definition on_canvas :: "app \<Rightarrow> real \<Rightarrow> real \<Rightarrow> bool" where
  "on_canvas s px py \<longleftrightarrow>
     (case s_graph s of None \<Rightarrow> False
      | Some g \<Rightarrow> 0 \<le> px \<and> px \<le> rect_width (g_rect g) \<and> 0 \<le> py \<and> py \<le> rect_height (g_rect g))"

fun app_step :: "event \<Rightarrow> app \<Rightarrow> (js_error option \<times> app) option" where
  "app_step NextClick s = nextQuestion s"
| "app_step SubmitClick s = Some (None, checkAnswer s)"
| "app_step EnterKey s = Some (None, checkAnswer s)"
| "app_step RevealClick s = Some (None, revealSolution s)"
| "app_step (CanvasClickAt px py) s = Some (None, if on_canvas s px py then canvasClick px py s else s)"
| "app_step (WindowResize d) s = Some (None, s\<lparr>s_graph := map_option (resize d) (s_graph s)\<rparr>)"
| "app_step (TypeField i v) s = Some (None, s\<lparr>form := set_field i v (form s)\<rparr>)"

text \<open>
  The scoreboard as the specification describes it: a submission with an outcome
  counts one attempt, a right one also counts as correct and extends the streak, a
  wrong one resets the streak. Only submissions with a current question have an
  outcome; every other event leaves the score alone.
\<close>

type_synonym score = "nat \<times> nat \<times> nat"

definition score_of :: "app \<Rightarrow> score" where
  "score_of s = (s_correct s, s_total s, s_streak s)"

fun score_spec :: "bool \<Rightarrow> score \<Rightarrow> score" where
  "score_spec ok (c, t, k) = (if ok then (Suc c, Suc t, Suc k) else (c, Suc t, 0))"

fun outcome :: "event \<Rightarrow> app \<Rightarrow> bool option" where
  "outcome SubmitClick s = map_option (\<lambda>q. answer_ok q (form s)) (s_current s)"
| "outcome EnterKey s = map_option (\<lambda>q. answer_ok q (form s)) (s_current s)"
| "outcome _ s = None"

text \<open>
  The browser runs one handler per event; an exception ends the handler, not the
  page, so a sequence of events runs on whatever state the previous one left.
\<close>

fun run_events :: "event list \<Rightarrow> app \<Rightarrow> app option" where
  "run_events [] s = Some s"
| "run_events (e # es) s = Option.bind (app_step e s) (\<lambda>(_, s'). run_events es s')"

text \<open>
  The invariant of the session: the counters are ordered, the scoreboard shows them,
  the random source is valid, the graph shows the default bounds, and the current
  question asks for a pair in the fields \<open>ans-x\<close>, \<open>ans-y\<close>, agrees with its drawing
  and has an integer answer of \<open>[-20, 20]\<^sup>2\<close>.
\<close>

definition int_answer :: "question \<Rightarrow> bool" where
  "int_answer q \<longleftrightarrow> is_int (fst (answer q)) \<and> is_int (snd (answer q))
      \<and> \<bar>fst (answer q)\<bar> \<le> 20 \<and> \<bar>snd (answer q)\<bar> \<le> 20"

definition app_inv :: "app \<Rightarrow> bool" where
  "app_inv s \<longleftrightarrow> s_streak s \<le> s_correct s \<and> s_correct s \<le> s_total s \<and> valid_rng (s_rng s)
     \<and> score_text s = ''Score: '' @ nat_text (s_correct s) @ ''/'' @ nat_text (s_total s)
     \<and> streak_text s = ''Streak: '' @ nat_text (s_streak s)
     \<and> (case s_graph s of None \<Rightarrow> True | Some g \<Rightarrow> g_bounds g = default_bounds)
     \<and> (case s_current s of None \<Rightarrow> True
         | Some q \<Rightarrow> answerShape q = ShapePair \<and> drawn_answer q = Some (answer q) \<and> int_answer q
                     \<and> reveals_answer q \<and> map f_id (form s) = [''ans-x'', ''ans-y''])"

text \<open>
  Concrete sessions for the examples: a page with a 100 by 100 pixel canvas at pixel
  ratio 1, after one click on Next. \<open>Math.random\<close> first returns 0, which picks the
  forward question; in \<open>demo_session\<close> it then returns 0.99 forever, which samples
  \<open>P = v = (10, 10)\<close>, and in \<open>near_session\<close> it returns 0.75 and then 0.5 forever,
  which samples \<open>P = (5, 0)\<close> and \<open>v = (0, 0)\<close>.
\<close>

abbreviation demo_canvas :: "(rect \<times> real \<times> real \<times> real) option" where
  "demo_canvas \<equiv> Some (\<lparr>rect_width = 100, rect_height = 100\<rparr>, 100, 100, 1)"

abbreviation first_session :: "rng \<Rightarrow> app" where
  "first_session r \<equiv> snd (the (nextQuestion (the (app_init r demo_canvas))))"

abbreviation demo_rng :: rng where
  "demo_rng \<equiv> 0 ## sconst (99 / 100)"

abbreviation demo_session :: app where
  "demo_session \<equiv> first_session demo_rng"

abbreviation near_rng :: rng where
  "near_rng \<equiv> 0 ## (3 / 4) ## sconst (1 / 2)"

abbreviation near_session :: app where
  "near_session \<equiv> first_session near_rng"

inductive reachable :: "app \<Rightarrow> bool" where
  start: "valid_rng r \<Longrightarrow> app_init r canvas = Some s \<Longrightarrow> reachable s"
| step: "reachable s \<Longrightarrow> app_step e s = Some (err, s') \<Longrightarrow> reachable s'"

subsection \<open>Generating the next question\<close>

lemma generated_medium_int:
  assumes "valid_rng s" and "gen = terminalFromInitialAndVector \<or> gen = initialFromTerminalAndVector"
  shows "\<exists>q. run_state (gen (difficultyRanges ''medium'')) s = (q, sdrop 4 s)
           \<and> answerShape q = ShapePair \<and> drawn_answer q = Some (answer q) \<and> int_answer q"
proof -
  obtain a b c d :: int where
    e: "sample (difficultyRanges ''medium'') s = of_int a" "sample (difficultyRanges ''medium'') (stl s) = of_int b"
       "sample (difficultyRanges ''medium'') (stl (stl s)) = of_int c"
       "sample (difficultyRanges ''medium'') (stl (stl (stl s))) = of_int d"
    and r: "\<bar>a\<bar> \<le> 10" "\<bar>b\<bar> \<le> 10" "\<bar>c\<bar> \<le> 10" "\<bar>d\<bar> \<le> 10"
    using medium_samples [OF assms(1)] by blast
  from assms(2) show ?thesis
  proof
    assume "gen = terminalFromInitialAndVector"
    moreover have "\<bar>real_of_int (a + c)\<bar> \<le> 20" "\<bar>real_of_int (b + d)\<bar> \<le> 20"
      using abs_of_int_le [of "a + c" 20] abs_of_int_le [of "b + d" 20] r by simp_all
    ultimately show ?thesis
      by (simp add: run_terminalFromInitialAndVector e add3_int int_answer_def del: of_int_add medium_range add3.simps)
  next
    assume "gen = initialFromTerminalAndVector"
    moreover have "\<bar>real_of_int (a - c)\<bar> \<le> 20" "\<bar>real_of_int (b - d)\<bar> \<le> 20"
      using abs_of_int_le [of "a - c" 20] abs_of_int_le [of "b - d" 20] r by simp_all
    ultimately show ?thesis
      by (simp add: run_initialFromTerminalAndVector e sub3_int int_answer_def del: of_int_diff medium_range sub3.simps)
  qed
qed

lemma generated_medium:
  assumes "valid_rng s" and "gen = terminalFromInitialAndVector \<or> gen = initialFromTerminalAndVector"
  shows "\<exists>q. run_state (gen (difficultyRanges ''medium'')) s = (q, sdrop 4 s)
           \<and> answerShape q = ShapePair \<and> drawn_answer q = Some (answer q) \<and> int_answer q \<and> reveals_answer q"
proof -
  obtain q where q: "run_state (gen (difficultyRanges ''medium'')) s = (q, sdrop 4 s)"
    and p: "answerShape q = ShapePair" "drawn_answer q = Some (answer q)" "int_answer q"
    using generated_medium_int [OF assms] by blast
  have "reveals_answer (fst (run_state (gen (difficultyRanges ''medium'')) s))"
    using assms(2) by (rule generated_reveals)
  with q p show ?thesis by auto
qed

lemma choice_selectedTypes:
  assumes "unit_interval (shd s)"
  shows "\<exists>n gen. fst (run_state (choice selectedTypes) s) = Some n \<and> generators n = Some gen
           \<and> (gen = terminalFromInitialAndVector \<or> gen = initialFromTerminalAndVector)"
proof -
  have "0 \<le> \<lfloor>shd s * 2\<rfloor> \<and> \<lfloor>shd s * 2\<rfloor> < 2"
    using floor_mult_unit_bounds [OF assms, of 2] by simp
  then have "\<lfloor>shd s * 2\<rfloor> = 0 \<or> \<lfloor>shd s * 2\<rfloor> = 1" by linarith
  then show ?thesis
    using assms by (auto simp: selectedTypes_def generators_def Let_def unit_interval_def)
qed

lemma set_field_ids [simp]: "map f_id (set_field i v fs) = map f_id fs"
  by (induction fs) auto

lemma renderScene_frame:
  "renderScene sc g = Some g' \<Longrightarrow> g_bounds g' = g_bounds g \<and> g_rect g' = g_rect g"
  using renderScene_eq [of g sc] by auto

lemma drawQuestionGraph_Some:
  "\<exists>go. drawQuestionGraph q s = Some (s\<lparr>s_graph := go\<rparr>)
     \<and> map_option g_bounds go = map_option (\<lambda>_. default_bounds) (s_graph s)
     \<and> map_option g_rect go = map_option g_rect (s_graph s)"
proof (cases "s_graph s")
  case None
  then show ?thesis by (intro exI [of _ None]) (simp add: drawQuestionGraph_def)
next
  case (Some g)
  obtain g' where "renderScene (question_scene q) (setBounds default_bounds g) = Some g'"
    using renderScene_eq by blast
  moreover from this have "g_bounds g' = default_bounds" "g_rect g' = g_rect g"
    using renderScene_frame by (fastforce simp: setBounds_def)+
  ultimately show ?thesis
    using Some by (intro exI [of _ "Some g'"]) (simp add: drawQuestionGraph_def)
qed

lemma nextQuestion_valid:
  assumes "valid_rng (s_rng s)"
  shows "\<exists>q go. nextQuestion s = Some (None, s\<lparr>s_current := Some q, s_graph := go, s_rng := sdrop 5 (s_rng s),
             q_text := prompt q, form := buildInputs ShapePair, feedback_class := ''feedback'',
             feedback_text := [], solution_text := []\<rparr>)
           \<and> map_option g_bounds go = map_option (\<lambda>_. default_bounds) (s_graph s)
           \<and> map_option g_rect go = map_option g_rect (s_graph s)
           \<and> answerShape q = ShapePair \<and> drawn_answer q = Some (answer q) \<and> int_answer q \<and> reveals_answer q
           \<and> (\<exists>n gen. fst (run_state (choice selectedTypes) (s_rng s)) = Some n \<and> generators n = Some gen
                 \<and> q = fst (run_state (gen (difficultyRanges ''medium'')) (stl (s_rng s))))"
proof -
  obtain n gen where n: "fst (run_state (choice selectedTypes) (s_rng s)) = Some n" "generators n = Some gen"
    and gen: "gen = terminalFromInitialAndVector \<or> gen = initialFromTerminalAndVector"
    using choice_selectedTypes [OF valid_rng_shd [OF assms]] by blast
  have rest: "snd (run_state (choice selectedTypes) (s_rng s)) = stl (s_rng s)" by (simp add: Let_def)
  obtain q where q: "run_state (gen (difficultyRanges ''medium'')) (stl (s_rng s)) = (q, sdrop 4 (stl (s_rng s)))"
    and props: "answerShape q = ShapePair" "drawn_answer q = Some (answer q)" "int_answer q" "reveals_answer q"
    using generated_medium [OF valid_rng_stl [OF assms] gen] by blast
  define s1 where "s1 = setSolution [] (s\<lparr>s_rng := sdrop 4 (stl (s_rng s)), s_current := Some q, q_text := prompt q,
                         form := buildInputs (answerShape q), feedback_class := ''feedback'', feedback_text := []\<rparr>)"
  obtain go where go: "drawQuestionGraph q s1 = Some (s1\<lparr>s_graph := go\<rparr>)"
    and gb: "map_option g_bounds go = map_option (\<lambda>_. default_bounds) (s_graph s1)"
    and gr: "map_option g_rect go = map_option g_rect (s_graph s1)"
    using drawQuestionGraph_Some by blast
  have "nextQuestion s = Some (None, s1\<lparr>s_graph := go\<rparr>)"
    using n rest q go by (simp add: nextQuestion_def s1_def split_beta prod_eq_iff)
  moreover have "sdrop 4 (stl (s_rng s)) = sdrop 5 (s_rng s)" by (simp add: numeral_eq_Suc)
  moreover have "s_graph s1 = s_graph s" by (simp add: s1_def setSolution_def)
  ultimately show ?thesis
    using props gb gr n q by (intro exI [of _ q] exI [of _ go]) (simp add: s1_def setSolution_def)
qed

subsection \<open>Checking an answer\<close>

lemma checkAnswer_Some:
  assumes "s_current s = Some q"
  shows "checkAnswer s =
     (let ok = answer_ok q (form s) in
      s\<lparr>s_total := Suc (s_total s),
        s_correct := (if ok then Suc (s_correct s) else s_correct s),
        s_streak := (if ok then Suc (s_streak s) else 0),
        feedback_class := ''feedback '' @ (if ok then ''ok'' else ''no''),
        feedback_text := (if ok then ''Correct!'' else ''Not quite. Try another or reveal solution.''),
        score_text := ''Score: '' @ nat_text (if ok then Suc (s_correct s) else s_correct s) @ ''/''
                      @ nat_text (Suc (s_total s)),
        streak_text := ''Streak: '' @ nat_text (if ok then Suc (s_streak s) else 0)\<rparr>)"
  using assms by (simp add: checkAnswer_def updateScoreboard_def setFeedback_def Let_def)

subsection \<open>The session invariant\<close>

lemma app_inv_init:
  assumes "valid_rng r" and "app_init r canvas = Some s"
  shows "app_inv s"
proof -
  obtain go where s: "s = (updateScoreboard (empty_app r))\<lparr>s_graph := go\<rparr>"
    and go: "case go of None \<Rightarrow> True | Some g \<Rightarrow> g_bounds g = default_bounds"
  proof (cases canvas)
    case None
    with assms(2) have "s = updateScoreboard (empty_app r)"
      by (simp add: app_init_def initGraph_def)
    moreover have "updateScoreboard (empty_app r) = (updateScoreboard (empty_app r))\<lparr>s_graph := None\<rparr>"
      by (simp add: updateScoreboard_def empty_app_def)
    ultimately show ?thesis by (metis that option.case(1))
  next
    case (Some c)
    obtain rc w h d where c: "c = (rc, w, h, d)" by (cases c) auto
    obtain g where g: "renderScene [] (setBounds default_bounds (graph_create rc w h d)) = Some g"
      using renderScene_eq by blast
    then have "g_bounds g = default_bounds"
      using renderScene_frame by (fastforce simp: setBounds_def)
    with assms(2) Some c g show ?thesis
      by (intro that [of "Some g"]) (auto simp: app_init_def initGraph_def)
  qed
  with assms(1) show ?thesis
    by (auto simp: app_inv_def updateScoreboard_def empty_app_def)
qed

lemma app_inv_nextQuestion:
  assumes "app_inv s" and "nextQuestion s = Some (err, s')"
  shows "app_inv s' \<and> err = None"
proof -
  have v: "valid_rng (s_rng s)" using assms(1) by (simp add: app_inv_def)
  obtain q go where
    n: "nextQuestion s = Some (None, s\<lparr>s_current := Some q, s_graph := go, s_rng := sdrop 5 (s_rng s),
             q_text := prompt q, form := buildInputs ShapePair, feedback_class := ''feedback'',
             feedback_text := [], solution_text := []\<rparr>)"
    and gb: "map_option g_bounds go = map_option (\<lambda>_. default_bounds) (s_graph s)"
    and q: "answerShape q = ShapePair" "drawn_answer q = Some (answer q)" "int_answer q" "reveals_answer q"
    using nextQuestion_valid [OF v] by blast
  have "valid_rng (sdrop 5 (s_rng s))" using v by blast
  moreover have "case go of None \<Rightarrow> True | Some g \<Rightarrow> g_bounds g = default_bounds"
    using gb by (cases go; cases "s_graph s") auto
  ultimately show ?thesis
    using assms n q by (auto simp: app_inv_def buildInputs_def)
qed

lemma app_inv_checkAnswer:
  assumes "app_inv s"
  shows "app_inv (checkAnswer s)"
proof (cases "s_current s")
  case None
  with assms show ?thesis by (simp add: checkAnswer_def)
next
  case (Some q)
  with assms show ?thesis by (simp add: app_inv_def checkAnswer_Some [OF Some] Let_def)
qed

lemma app_inv_step:
  assumes "app_inv s" and "app_step e s = Some (err, s')"
  shows "app_inv s'"
proof (cases e)
  case NextClick
  with assms app_inv_nextQuestion show ?thesis by auto
next
  case SubmitClick
  with assms app_inv_checkAnswer show ?thesis by auto
next
  case EnterKey
  with assms app_inv_checkAnswer show ?thesis by auto
qed (use assms in \<open>auto simp: app_inv_def revealSolution_def setSolution_def canvasClick_def Let_def
                              split: option.splits prod.splits if_splits\<close>)

lemma reachable_inv: "reachable s \<Longrightarrow> app_inv s"
  by (induction rule: reachable.induct) (auto intro: app_inv_init app_inv_step)

subsection \<open>Answering: typing, clicking, submitting\<close>

lemma int_answer_obtain:
  assumes "int_answer q"
  obtains a b :: int where "answer q = (of_int a, of_int b)" "\<bar>a\<bar> \<le> 20" "\<bar>b\<bar> \<le> 20"
proof -
  let ?a = "\<lfloor>fst (answer q)\<rfloor>" and ?b = "\<lfloor>snd (answer q)\<rfloor>"
  have ea: "of_int ?a = fst (answer q)" and eb: "of_int ?b = snd (answer q)"
    and ba: "\<bar>fst (answer q)\<bar> \<le> 20" and bb: "\<bar>snd (answer q)\<bar> \<le> 20"
    using assms unfolding int_answer_def is_int_def by blast+
  have "answer q = (of_int ?a, of_int ?b)" by (simp add: ea eb)
  moreover have "real_of_int \<bar>?a\<bar> \<le> 20" "real_of_int \<bar>?b\<bar> \<le> 20"
    using ba bb by (simp_all only: of_int_abs ea eb)
  then have "\<bar>?a\<bar> \<le> 20" "\<bar>?b\<bar> \<le> 20" by simp_all
  ultimately show ?thesis by (rule that)
qed

lemma getUserAnswer_written:
  assumes "map f_id fs = [''ans-x'', ''ans-y'']"
  shows "getUserAnswer ShapePair (set_field ''ans-y'' vy (set_field ''ans-x'' vx fs))
           = PairAns (parseFloat vx) (parseFloat vy)"
proof -
  obtain f1 f2 where "fs = [f1, f2]" "f_id f1 = ''ans-x''" "f_id f2 = ''ans-y''"
    using assms by (auto simp: map_eq_Cons_conv)
  then show ?thesis by (simp add: getUserAnswer_def read_field_def field_value_def)
qed

lemma answer_ok_written:
  assumes "map f_id fs = [''ans-x'', ''ans-y'']" and "answerShape q = ShapePair"
  shows "answer_ok q (set_field ''ans-y'' vy (set_field ''ans-x'' vx fs))
           \<longleftrightarrow> pairEqual (parseFloat vx, parseFloat vy) (Num (fst (answer q)), Num (snd (answer q))) default_tol"
  using assms by (simp add: answer_ok_def getUserAnswer_written)

lemma answer_ok_exact:
  assumes "map f_id fs = [''ans-x'', ''ans-y'']" and "answerShape q = ShapePair" and "int_answer q"
  shows "answer_ok q (set_field ''ans-y'' (js_to_string (Num (snd (answer q))))
                        (set_field ''ans-x'' (js_to_string (Num (fst (answer q)))) fs))"
proof -
  obtain a b :: int where ab: "answer q = (of_int a, of_int b)" "\<bar>a\<bar> \<le> 20" "\<bar>b\<bar> \<le> 20"
    using assms(3) by (rule int_answer_obtain)
  then have "\<bar>a\<bar> < 10 ^ 21" "\<bar>b\<bar> < 10 ^ 21" by simp_all
  then have "parseFloat (js_to_string (Num (of_int a))) = Num (of_int a)"
    "parseFloat (js_to_string (Num (of_int b))) = Num (of_int b)"
    by (simp_all only: parseFloat_int_string)
  with assms(1,2) ab show ?thesis by (simp add: answer_ok_written default_tol_def)
qed

lemma checkAnswer_right:
  assumes "s_current s = Some q" and "answer_ok q (form s)"
  shows "s_correct (checkAnswer s) = Suc (s_correct s) \<and> s_total (checkAnswer s) = Suc (s_total s)
     \<and> s_streak (checkAnswer s) = Suc (s_streak s) \<and> feedback_text (checkAnswer s) = ''Correct!''"
  using assms by (simp add: checkAnswer_Some)

lemma checkAnswer_wrong:
  assumes "s_current s = Some q" and "\<not> answer_ok q (form s)"
  shows "s_correct (checkAnswer s) = s_correct s \<and> s_total (checkAnswer s) = Suc (s_total s)
     \<and> s_streak (checkAnswer s) = 0 \<and> feedback_class (checkAnswer s) = ''feedback no''"
  using assms by (simp add: checkAnswer_Some)

text \<open>
  C1. In every reachable session the counters are ordered (streak at most correct at
  most total), the scoreboard shows them as \<open>updateScoreboard\<close> formats them, and the
  graph, when the page has a canvas, shows the fixed bounds \<open>[-10, 10]\<^sup>2\<close>.
\<close>

theorem session_invariant:
  assumes "reachable s"
  shows "s_streak s \<le> s_correct s \<and> s_correct s \<le> s_total s
     \<and> score_text s = ''Score: '' @ nat_text (s_correct s) @ ''/'' @ nat_text (s_total s)
     \<and> streak_text s = ''Streak: '' @ nat_text (s_streak s)
     \<and> (\<forall>g. s_graph s = Some g \<longrightarrow> g_bounds g = default_bounds)"
  using reachable_inv [OF assms] by (auto simp: app_inv_def)

text \<open>
  C5. From every reachable session a click on Next never throws and always returns:
  it consumes exactly five random values (one for the question kind, four for the
  coordinates), shows a question that asks for a pair with fresh fields and no
  feedback or solution, and leaves the score alone.
\<close>

theorem next_question_total:
  assumes "reachable s"
  shows "\<exists>q s'. app_step NextClick s = Some (None, s') \<and> s_current s' = Some q \<and> answerShape q = ShapePair
     \<and> s_rng s' = sdrop 5 (s_rng s) \<and> q_text s' = prompt q \<and> form s' = buildInputs ShapePair
     \<and> feedback_text s' = [] \<and> solution_text s' = []
     \<and> s_correct s' = s_correct s \<and> s_total s' = s_total s \<and> s_streak s' = s_streak s"
proof -
  have "valid_rng (s_rng s)" using reachable_inv [OF assms] by (simp add: app_inv_def)
  from nextQuestion_valid [OF this] show ?thesis by fastforce
qed

text \<open>
  C3. In every reachable session with a current question, typing the answer as
  \<open>String\<close> prints it into the two fields and submitting it is accepted: the correct
  count, the total and the streak each grow by one and the feedback is \<open>Correct!\<close>.
\<close>

theorem typed_answer_accepted:
  assumes "reachable s" and "s_current s = Some q"
  shows "\<exists>s'. run_events [TypeField ''ans-x'' (js_to_string (Num (fst (answer q)))),
                           TypeField ''ans-y'' (js_to_string (Num (snd (answer q)))), SubmitClick] s = Some s'
           \<and> s_correct s' = Suc (s_correct s) \<and> s_total s' = Suc (s_total s)
           \<and> s_streak s' = Suc (s_streak s) \<and> feedback_text s' = ''Correct!''"
proof -
  have inv: "app_inv s" by (rule reachable_inv [OF assms(1)])
  define s2 where "s2 = s\<lparr>form := set_field ''ans-y'' (js_to_string (Num (snd (answer q))))
                                (set_field ''ans-x'' (js_to_string (Num (fst (answer q)))) (form s))\<rparr>"
  have run: "run_events [TypeField ''ans-x'' (js_to_string (Num (fst (answer q)))),
                         TypeField ''ans-y'' (js_to_string (Num (snd (answer q)))), SubmitClick] s
             = Some (checkAnswer s2)"
    by (simp add: s2_def)
  from inv assms(2) have "answerShape q = ShapePair" "int_answer q" "map f_id (form s) = [''ans-x'', ''ans-y'']"
    by (simp_all add: app_inv_def)
  then have "answer_ok q (form s2)" using answer_ok_exact by (simp add: s2_def)
  moreover have "s_current s2 = Some q" by (simp add: s2_def assms(2))
  ultimately show ?thesis
    using run checkAnswer_right by (simp add: s2_def)
qed


lemma snap_Num: "snap (Num x) = Num (of_int \<lfloor>x * 2 + 1 / 2\<rfloor> / 2)"
  by (simp add: snap_def)

lemma snap_int [simp]: "snap (Num (of_int a)) = Num (of_int a)"
proof -
  have "\<lfloor>of_int a * 2 + 1 / 2 :: real\<rfloor> = 2 * a" by linarith
  then show ?thesis by (simp add: snap_Num)
qed

lemma graph_screenToWorld_default:
  assumes "g_bounds g = default_bounds" and "rect_width (g_rect g) \<noteq> 0" and "rect_height (g_rect g) \<noteq> 0"
  shows "graph_screenToWorld g px py =
           (Num (-10 + px / rect_width (g_rect g) * 20),
            Num (-10 + (rect_height (g_rect g) - py) / rect_height (g_rect g) * 20))"
  using assms by (simp add: graph_screenToWorld_def screenToWorld_finite default_bounds_def)

lemma canvasClick_pair:
  assumes "s_graph s = Some g" and "s_current s = Some q" and "answerShape q = ShapePair"
    and "graph_screenToWorld g px py = (xw, yw)"
  shows "canvasClick px py s = s\<lparr>form := set_field ''ans-y'' (js_to_string (snap yw))
                                       (set_field ''ans-x'' (js_to_string (snap xw)) (form s))\<rparr>"
  using assms by (simp add: canvasClick_def)

lemma unit_scale:
  fixes t w :: real
  assumes "0 \<le> t" and "t \<le> 1" and "0 < w"
  shows "0 \<le> t * w \<and> t * w \<le> w"
  using assms mult_right_mono [of t 1 w] by simp

text \<open>
  C4. Click-to-answer: in every reachable session with a question whose answer lies
  in the shown bounds \<open>[-10, 10]\<^sup>2\<close>, on a canvas of positive size, the pixel where
  \<open>worldToScreen\<close> puts the answer is on the canvas, and a click there snaps back to
  the answer, writes it into the fields, and submitting it is accepted.
\<close>

theorem click_answer_accepted:
  assumes "reachable s" and "s_current s = Some q" and "s_graph s = Some g"
    and "0 < rect_width (g_rect g)" and "0 < rect_height (g_rect g)"
    and "\<bar>fst (answer q)\<bar> \<le> 10" and "\<bar>snd (answer q)\<bar> \<le> 10"
  shows "\<exists>px py s'. worldToScreen (g_bounds g) (g_rect g) (answer q) = (Num px, Num py)
           \<and> 0 \<le> px \<and> px \<le> rect_width (g_rect g) \<and> 0 \<le> py \<and> py \<le> rect_height (g_rect g)
           \<and> run_events [CanvasClickAt px py, SubmitClick] s = Some s'
           \<and> s_correct s' = Suc (s_correct s) \<and> s_total s' = Suc (s_total s)
           \<and> s_streak s' = Suc (s_streak s) \<and> feedback_text s' = ''Correct!''"
proof -
  have inv: "app_inv s" by (rule reachable_inv [OF assms(1)])
  with assms(2,3) have b: "g_bounds g = default_bounds" and sh: "answerShape q = ShapePair"
    and ia: "int_answer q" and ids: "map f_id (form s) = [''ans-x'', ''ans-y'']"
    by (simp_all add: app_inv_def)
  obtain a b :: int where ab: "answer q = (of_int a, of_int b)"
    using ia by (rule int_answer_obtain)
  let ?w = "rect_width (g_rect g)" and ?h = "rect_height (g_rect g)"
  define tx where "tx = (of_int a + 10) / (20::real)"
  define ty where "ty = (of_int b + 10) / (20::real)"
  define px where "px = tx * ?w"
  define py where "py = ?h - ty * ?h"
  have "\<bar>real_of_int a\<bar> \<le> 10" "\<bar>real_of_int b\<bar> \<le> 10" using assms(6,7) ab by simp_all
  then have "0 \<le> tx" "tx \<le> 1" "0 \<le> ty" "ty \<le> 1" by (simp_all add: tx_def ty_def abs_le_iff)
  then have pin: "0 \<le> px \<and> px \<le> ?w" "0 \<le> py \<and> py \<le> ?h"
    using unit_scale [of tx ?w] unit_scale [of ty ?h] assms(4,5) by (simp_all add: px_def py_def)
  have ws: "worldToScreen (g_bounds g) (g_rect g) (answer q) = (Num px, Num py)"
    using b ab by (simp add: worldToScreen_finite default_bounds_def px_def py_def tx_def ty_def)
  have "-10 + px / ?w * 20 = of_int a" "-10 + (?h - py) / ?h * 20 = of_int b"
    using assms(4,5) by (simp_all add: px_def py_def tx_def ty_def field_simps)
  then have sw: "graph_screenToWorld g px py = (Num (of_int a), Num (of_int b))"
    using b assms(4,5) by (simp add: graph_screenToWorld_default)
  define s1 where "s1 = s\<lparr>form := set_field ''ans-y'' (js_to_string (Num (snd (answer q))))
                                (set_field ''ans-x'' (js_to_string (Num (fst (answer q)))) (form s))\<rparr>"
  have "canvasClick px py s = s1"
    using canvasClick_pair [OF assms(3,2) sh sw] ab by (simp add: s1_def)
  moreover have "on_canvas s px py" using pin assms(3) by (simp add: on_canvas_def)
  ultimately have run: "run_events [CanvasClickAt px py, SubmitClick] s = Some (checkAnswer s1)" by simp
  have "answer_ok q (form s1)" using answer_ok_exact [OF ids sh ia] by (simp add: s1_def)
  moreover have "s_current s1 = Some q" by (simp add: s1_def assms(2))
  ultimately have "s_correct (checkAnswer s1) = Suc (s_correct s) \<and> s_total (checkAnswer s1) = Suc (s_total s)
     \<and> s_streak (checkAnswer s1) = Suc (s_streak s) \<and> feedback_text (checkAnswer s1) = ''Correct!''"
    using checkAnswer_right by (simp add: s1_def)
  with ws pin run show ?thesis by blast
qed


text \<open>
  C14. The answer of a forward question lies in \<open>[-20, 20]\<^sup>2\<close>, but the canvas shows
  only \<open>[-10, 10]\<^sup>2\<close>: when the answer's first coordinate is beyond 10, no click
  inside the canvas width can answer it, since every such click snaps to a value of
  \<open>[-10, 10]\<close>, and the submission resets the streak.
\<close>

theorem click_cannot_reach_far_answer:
  assumes "reachable s" and "s_current s = Some q" and "s_graph s = Some g"
    and "0 < rect_width (g_rect g)" and "0 < rect_height (g_rect g)"
    and "0 \<le> px" and "px \<le> rect_width (g_rect g)" and "0 \<le> py" and "py \<le> rect_height (g_rect g)"
    and "10 < \<bar>fst (answer q)\<bar>"
  shows "\<exists>s'. run_events [CanvasClickAt px py, SubmitClick] s = Some s'
           \<and> s_correct s' = s_correct s \<and> s_total s' = Suc (s_total s) \<and> s_streak s' = 0"
proof -
  have inv: "app_inv s" by (rule reachable_inv [OF assms(1)])
  with assms(2,3) have b: "g_bounds g = default_bounds" and sh: "answerShape q = ShapePair"
    and ia: "int_answer q" and ids: "map f_id (form s) = [''ans-x'', ''ans-y'']"
    by (simp_all add: app_inv_def)
  obtain a b :: int where ab: "answer q = (of_int a, of_int b)"
    using ia by (rule int_answer_obtain)
  let ?w = "rect_width (g_rect g)" and ?h = "rect_height (g_rect g)"
  define xw where "xw = -10 + px / ?w * 20"
  define yw where "yw = -10 + (?h - py) / ?h * 20"
  define j where "j = \<lfloor>xw * 2 + 1 / 2\<rfloor>"
  define t where "t = px / ?w"
  have "0 \<le> t" "t \<le> 1" using assms(4,6,7) by (simp_all add: t_def)
  moreover have "xw = -10 + t * 20" by (simp add: xw_def t_def)
  ultimately have "-10 \<le> xw \<and> xw \<le> 10" by linarith
  then have j: "-20 \<le> j" "j \<le> 20" unfolding j_def by linarith+
  have sw: "graph_screenToWorld g px py = (Num xw, Num yw)"
    using b assms(4,5) by (simp add: graph_screenToWorld_default xw_def yw_def)
  define s1 where "s1 = s\<lparr>form := set_field ''ans-y'' (js_to_string (snap (Num yw)))
                                (set_field ''ans-x'' (js_to_string (Num (of_int j / 2))) (form s))\<rparr>"
  have "canvasClick px py s = s1"
    using canvasClick_pair [OF assms(3,2) sh sw] by (simp add: s1_def snap_Num j_def)
  moreover have "on_canvas s px py" using assms(3,6,7,8,9) by (simp add: on_canvas_def)
  ultimately have run: "run_events [CanvasClickAt px py, SubmitClick] s = Some (checkAnswer s1)" by simp
  have "\<bar>j\<bar> < 2 * 10 ^ 21" using j by simp
  then have px_read: "parseFloat (js_to_string (Num (of_int j / 2))) = Num (of_int j / 2)"
    by (rule parseFloat_half_string)
  have "10 < \<bar>a\<bar>" using assms(10) ab by simp
  then have "real_of_int a \<le> -11 \<or> 11 \<le> real_of_int a" by linarith
  moreover have "-20 \<le> real_of_int j" "real_of_int j \<le> 20" using j by simp_all
  ultimately have "\<not> \<bar>real_of_int j / 2 - real_of_int a\<bar> \<le> 1 / 100"
    by (auto simp: abs_le_iff)
  then have "\<not> answer_ok q (form s1)"
    using ids sh ab px_read by (simp add: s1_def answer_ok_written default_tol_def)
  moreover have "s_current s1 = Some q" by (simp add: s1_def assms(2))
  ultimately have "s_correct (checkAnswer s1) = s_correct s \<and> s_total (checkAnswer s1) = Suc (s_total s)
     \<and> s_streak (checkAnswer s1) = 0"
    using checkAnswer_wrong by (simp add: s1_def)
  with run show ?thesis by blast
qed


lemma app_init_canvas:
  "\<exists>s. app_init r (Some (rc, w, h, d)) = Some s \<and> s_rng s = r \<and> s_current s = None
      \<and> map_option g_rect (s_graph s) = Some rc"
proof -
  obtain g where g: "renderScene [] (setBounds default_bounds (graph_create rc w h d)) = Some g"
    using renderScene_eq by blast
  then have "g_rect g = rc"
    using renderScene_frame by (fastforce simp: setBounds_def graph_create_def)
  with g show ?thesis
    by (simp add: app_init_def initGraph_def updateScoreboard_def empty_app_def)
qed

lemma first_session_facts:
  assumes "valid_rng r" and "shd r = 0"
  shows "reachable (first_session r)
     \<and> s_current (first_session r) = Some (fst (run_state (terminalFromInitialAndVector (difficultyRanges ''medium'')) (stl r)))
     \<and> map_option g_rect (s_graph (first_session r)) = Some \<lparr>rect_width = 100, rect_height = 100\<rparr>
     \<and> form (first_session r) = buildInputs ShapePair"
proof -
  obtain s0 where s0: "app_init r demo_canvas = Some s0" "s_rng s0 = r"
    and r0: "map_option g_rect (s_graph s0) = Some \<lparr>rect_width = 100, rect_height = 100\<rparr>"
    using app_init_canvas by blast
  with assms(1) have reach0: "reachable s0" by (blast intro: reachable.start)
  from assms(1) s0(2) have "valid_rng (s_rng s0)" by simp
  from nextQuestion_valid [OF this] obtain q go where
    nq: "nextQuestion s0 = Some (None, s0\<lparr>s_current := Some q, s_graph := go, s_rng := sdrop 5 (s_rng s0),
             q_text := prompt q, form := buildInputs ShapePair, feedback_class := ''feedback'',
             feedback_text := [], solution_text := []\<rparr>)"
    and gr: "map_option g_rect go = map_option g_rect (s_graph s0)"
    and q: "\<exists>n gen. fst (run_state (choice selectedTypes) (s_rng s0)) = Some n \<and> generators n = Some gen
                 \<and> q = fst (run_state (gen (difficultyRanges ''medium'')) (stl (s_rng s0)))"
    by blast
  have "fst (run_state (choice selectedTypes) r) = Some ''terminalFromInitialAndVector''"
    using assms(2) by (simp add: selectedTypes_def)
  with q s0(2) have "q = fst (run_state (terminalFromInitialAndVector (difficultyRanges ''medium'')) (stl r))"
    by (auto simp: generators_def)
  moreover have "reachable (snd (the (nextQuestion s0)))"
    using reach0 nq by (auto intro: reachable.step [where e = NextClick])
  ultimately show ?thesis using s0 nq gr r0 by simp
qed

lemma demo_session_facts:
  "reachable demo_session \<and> s_current demo_session = Some (terminal_question (10, 10) (10, 10))
     \<and> map_option g_rect (s_graph demo_session) = Some \<lparr>rect_width = 100, rect_height = 100\<rparr>
     \<and> form demo_session = buildInputs ShapePair"
proof -
  have "valid_rng demo_rng" by (simp add: unit_interval_def)
  moreover have "sample (difficultyRanges ''medium'') (sconst (99 / 100)) = 10"
    by (simp add: rndNum_def)
  ultimately show ?thesis
    using first_session_facts [of demo_rng]
    by (simp add: run_terminalFromInitialAndVector del: medium_range)
qed

lemma near_session_facts:
  "reachable near_session \<and> s_current near_session = Some (terminal_question (5, 0) (0, 0))
     \<and> map_option g_rect (s_graph near_session) = Some \<lparr>rect_width = 100, rect_height = 100\<rparr>"
proof -
  have "valid_rng near_rng" by (simp add: unit_interval_def)
  moreover have "sample (difficultyRanges ''medium'') ((3 / 4) ## sconst (1 / 2)) = 5"
    "sample (difficultyRanges ''medium'') (sconst (1 / 2)) = 0"
    by (simp_all add: rndNum_def)
  ultimately show ?thesis
    using first_session_facts [of near_rng]
    by (simp add: run_terminalFromInitialAndVector del: medium_range)
qed


lemma demo_answer: "answer (terminal_question (10, 10) (10, 10)) = (20, 20)"
  using to_fixed_int [of 3 20] by simp

theorem session_invariant_witness:
  "reachable demo_session \<and> s_streak demo_session \<le> s_correct demo_session
     \<and> s_correct demo_session \<le> s_total demo_session"
  using session_invariant [of demo_session] demo_session_facts by simp

theorem next_question_total_witness:
  "reachable demo_session \<and> (\<exists>q s'. app_step NextClick demo_session = Some (None, s') \<and> s_current s' = Some q
     \<and> answerShape q = ShapePair \<and> s_rng s' = sdrop 5 (s_rng demo_session))"
  using next_question_total [of demo_session] demo_session_facts by blast

theorem typed_answer_accepted_witness:
  "reachable demo_session \<and> s_current demo_session = Some (terminal_question (10, 10) (10, 10))
     \<and> (\<exists>s'. run_events [TypeField ''ans-x'' ''20'', TypeField ''ans-y'' ''20'', SubmitClick] demo_session = Some s'
           \<and> s_correct s' = Suc (s_correct demo_session) \<and> s_streak s' = Suc (s_streak demo_session))"
proof -
  have "js_to_string (Num 20) = ''20''"
    using real_to_string_int [of 20] by (simp add: nat_digits.simps digit_char_def)
  then show ?thesis
    using typed_answer_accepted [of demo_session "terminal_question (10, 10) (10, 10)"] demo_session_facts
    by (simp only: demo_answer prod.sel) blast
qed


lemma near_answer: "answer (terminal_question (5, 0) (0, 0)) = (5, 0)"
  using to_fixed_int [of 3 5] to_fixed_int [of 3 0] by simp

theorem click_answer_accepted_witness:
  "reachable near_session \<and> s_current near_session = Some (terminal_question (5, 0) (0, 0))
     \<and> s_graph near_session = Some (the (s_graph near_session))
     \<and> g_rect (the (s_graph near_session)) = \<lparr>rect_width = 100, rect_height = 100\<rparr>
     \<and> (\<exists>s'. run_events [CanvasClickAt 75 50, SubmitClick] near_session = Some s'
           \<and> s_correct s' = Suc (s_correct near_session))"
proof -
  obtain g where g: "s_graph near_session = Some g" "g_rect g = \<lparr>rect_width = 100, rect_height = 100\<rparr>"
    using near_session_facts by auto
  moreover have "g_bounds g = default_bounds"
    using reachable_inv near_session_facts g(1) by (fastforce simp: app_inv_def)
  ultimately show ?thesis
    using click_answer_accepted [of near_session "terminal_question (5, 0) (0, 0)" g] near_session_facts
    by (simp only: near_answer) (auto simp: worldToScreen_def default_bounds_def)
qed

theorem click_cannot_reach_far_answer_witness:
  "reachable demo_session \<and> s_current demo_session = Some (terminal_question (10, 10) (10, 10))
     \<and> s_graph demo_session = Some (the (s_graph demo_session))
     \<and> g_rect (the (s_graph demo_session)) = \<lparr>rect_width = 100, rect_height = 100\<rparr>
     \<and> 10 < \<bar>fst (answer (terminal_question (10, 10) (10, 10)))\<bar>
     \<and> (\<exists>s'. run_events [CanvasClickAt 50 50, SubmitClick] demo_session = Some s' \<and> s_streak s' = 0)"
proof -
  obtain g where g: "s_graph demo_session = Some g" "g_rect g = \<lparr>rect_width = 100, rect_height = 100\<rparr>"
    using demo_session_facts by auto
  then show ?thesis
    using click_cannot_reach_far_answer [of demo_session "terminal_question (10, 10) (10, 10)" g 50 50]
      demo_session_facts
    by (simp only: demo_answer) auto
qed

text \<open>
  C7. Submitting the fresh, empty fields of a reachable session's question is a wrong
  answer: \<open>parseFloat('')\<close> is \<open>NaN\<close>, which is never nearly equal to anything, so the
  total grows, the correct count stays and the streak is reset.
\<close>

theorem empty_answer_rejected:
  assumes "reachable s" and "s_current s = Some q" and "form s = buildInputs ShapePair"
  shows "\<exists>s'. app_step SubmitClick s = Some (None, s') \<and> s_correct s' = s_correct s
           \<and> s_total s' = Suc (s_total s) \<and> s_streak s' = 0
           \<and> feedback_text s' = ''Not quite. Try another or reveal solution.''"
proof -
  have "answerShape q = ShapePair" using reachable_inv [OF assms(1)] assms(2) by (simp add: app_inv_def)
  moreover have "parseFloat [] = NaN" by (simp add: parseFloat_def)
  ultimately have "\<not> answer_ok q (form s)"
    using assms(3) by (simp add: answer_ok_def getUserAnswer_def read_field_def field_value_def buildInputs_def
      nearlyEqual_def)
  with assms(2) show ?thesis by (simp add: checkAnswer_Some)
qed

theorem empty_answer_rejected_witness:
  "reachable demo_session \<and> s_current demo_session = Some (terminal_question (10, 10) (10, 10))
     \<and> form demo_session = buildInputs ShapePair
     \<and> (\<exists>s'. app_step SubmitClick demo_session = Some (None, s') \<and> s_streak s' = 0)"
  using empty_answer_rejected [of demo_session "terminal_question (10, 10) (10, 10)"] demo_session_facts
  by auto

lemma drawQuestionGraph_score: "drawQuestionGraph q s = Some s' \<Longrightarrow> score_of s' = score_of s"
  using drawQuestionGraph_Some [of q s] by (auto simp: score_of_def)

lemma nextQuestion_score: "nextQuestion s = Some (err, s') \<Longrightarrow> score_of s' = score_of s"
  by (auto simp: nextQuestion_def setSolution_def Let_def split_beta split: option.splits
           dest!: drawQuestionGraph_score) (simp_all add: score_of_def)

lemma checkAnswer_score:
  "score_of (checkAnswer s) =
     (case s_current s of None \<Rightarrow> score_of s | Some q \<Rightarrow> score_spec (answer_ok q (form s)) (score_of s))"
proof (cases "s_current s")
  case None
  then show ?thesis by (simp add: checkAnswer_def)
next
  case (Some q)
  then show ?thesis by (simp add: checkAnswer_Some [OF Some] score_of_def Let_def)
qed

text \<open>
  C2. The session refines the scoreboard of the specification: after every event
  the pair of counters and the streak are those of \<open>score_spec\<close> applied to the
  outcome of the event (a submission with a question), and unchanged by every other
  event, Next included, whether or not it throws.
\<close>

theorem score_refinement:
  assumes "app_step e s = Some (err, s')"
  shows "score_of s' = (case outcome e s of None \<Rightarrow> score_of s | Some ok \<Rightarrow> score_spec ok (score_of s))"
proof (cases e)
  case NextClick
  with assms show ?thesis by (simp add: nextQuestion_score)
next
  case SubmitClick
  with assms show ?thesis by (auto simp: checkAnswer_score split: option.splits)
next
  case EnterKey
  with assms show ?thesis by (auto simp: checkAnswer_score split: option.splits)
qed (use assms in \<open>auto simp: score_of_def revealSolution_def setSolution_def canvasClick_def Let_def
                              split: option.splits prod.splits if_splits\<close>)

theorem score_refinement_witness:
  "app_step SubmitClick demo_session = Some (None, checkAnswer demo_session)
     \<and> score_of (checkAnswer demo_session)
         = (case outcome SubmitClick demo_session of None \<Rightarrow> score_of demo_session
            | Some ok \<Rightarrow> score_spec ok (score_of demo_session))"
  using score_refinement [of SubmitClick demo_session None "checkAnswer demo_session"] by simp

text \<open>
  C24. Before the first question, submitting (by button or Enter), revealing and
  clicking the canvas change nothing: the handlers return early.
\<close>

theorem no_question_no_effect:
  assumes "s_current s = None"
  shows "app_step SubmitClick s = Some (None, s) \<and> app_step EnterKey s = Some (None, s)
     \<and> app_step RevealClick s = Some (None, s) \<and> app_step (CanvasClickAt px py) s = Some (None, s)"
  using assms by (simp add: checkAnswer_def revealSolution_def canvasClick_def split: option.splits prod.splits)

theorem no_question_no_effect_witness:
  "s_current (updateScoreboard (empty_app demo_rng)) = None
     \<and> app_step SubmitClick (updateScoreboard (empty_app demo_rng)) = Some (None, updateScoreboard (empty_app demo_rng))"
  using no_question_no_effect [of "updateScoreboard (empty_app demo_rng)" 0 0]
  by (simp add: updateScoreboard_def empty_app_def)

text \<open>
  C15. Revealing the solution in a reachable session with a question writes
  \<open>Solution: \<close> followed by the question's explanation, which ends with the formatted
  answer, and changes nothing else.
\<close>

theorem reveal_shows_answer:
  assumes "reachable s" and "s_current s = Some q"
  shows "\<exists>pre. app_step RevealClick s
           = Some (None, s\<lparr>solution_text := ''Solution: '' @ pre @ fmtPoint (answer q) @ ''.''\<rparr>)"
proof -
  have "reveals_answer q" using reachable_inv [OF assms(1)] assms(2) by (simp add: app_inv_def)
  then obtain pre where "explain q = pre @ fmtPoint (answer q) @ ''.''"
    by (auto simp: reveals_answer_def suffix_def)
  with assms(2) show ?thesis by (intro exI [of _ pre]) (simp add: revealSolution_def setSolution_def)
qed

theorem reveal_shows_answer_witness:
  "reachable demo_session \<and> s_current demo_session = Some (terminal_question (10, 10) (10, 10))
     \<and> (\<exists>pre. app_step RevealClick demo_session
           = Some (None, demo_session\<lparr>solution_text := ''Solution: '' @ pre @ fmtPoint (20, 20) @ ''.''\<rparr>))"
  using reveal_shows_answer [of demo_session "terminal_question (10, 10) (10, 10)"] demo_session_facts
  by (simp only: demo_answer)

subsection \<open>Reading clicks back, and the unused \<open>expandBounds\<close>\<close>

text \<open>
  C13. What a click writes reads back exactly: in a reachable session with a question,
  after a click whose world point has coordinates below \<open>10^20\<close> in magnitude, the
  answer read from the fields is the pair of snapped coordinates (the printed halves
  parse back to themselves).
\<close>

theorem click_fields_read_back:
  assumes "reachable s" and "s_current s = Some q" and "s_graph s = Some g"
    and "graph_screenToWorld g px py = (Num x, Num y)" and "\<bar>x\<bar> < 10 ^ 20" and "\<bar>y\<bar> < 10 ^ 20"
  shows "getUserAnswer (answerShape q) (form (canvasClick px py s)) = PairAns (snap (Num x)) (snap (Num y))"
proof -
  have inv: "app_inv s" by (rule reachable_inv [OF assms(1)])
  with assms(2) have sh: "answerShape q = ShapePair" and ids: "map f_id (form s) = [''ans-x'', ''ans-y'']"
    by (simp_all add: app_inv_def)
  have half: "parseFloat (js_to_string (snap (Num v))) = snap (Num v)" if "\<bar>v\<bar> < 10 ^ 20" for v
  proof -
    have "-100000000000000000000 < v" "v < 100000000000000000000" using that by (simp_all add: abs_less_iff)
    then have "\<bar>\<lfloor>v * 2 + 1 / 2\<rfloor>\<bar> < 2 * 10 ^ 21" by (simp add: abs_less_iff) linarith
    then have "parseFloat (js_to_string (Num (of_int \<lfloor>v * 2 + 1 / 2\<rfloor> / 2))) = Num (of_int \<lfloor>v * 2 + 1 / 2\<rfloor> / 2)"
      by (rule parseFloat_half_string)
    then show ?thesis by (simp only: snap_Num)
  qed
  show ?thesis
    using canvasClick_pair [OF assms(3,2) sh assms(4)] getUserAnswer_written [OF ids] sh
      half [OF assms(5)] half [OF assms(6)] by simp
qed

theorem click_fields_read_back_witness:
  "reachable demo_session \<and> s_current demo_session = Some (terminal_question (10, 10) (10, 10))
     \<and> s_graph demo_session = Some (the (s_graph demo_session))
     \<and> graph_screenToWorld (the (s_graph demo_session)) 50 50 = (Num 0, Num 0)
     \<and> getUserAnswer ShapePair (form (canvasClick 50 50 demo_session)) = PairAns (Num 0) (Num 0)"
proof -
  obtain g where g: "s_graph demo_session = Some g" "g_rect g = \<lparr>rect_width = 100, rect_height = 100\<rparr>"
    using demo_session_facts by auto
  moreover have "g_bounds g = default_bounds"
    using reachable_inv demo_session_facts g(1) by (fastforce simp: app_inv_def)
  ultimately have "graph_screenToWorld g 50 50 = (Num 0, Num 0)"
    by (simp add: graph_screenToWorld_default)
  with g show ?thesis
    using click_fields_read_back [of demo_session "terminal_question (10, 10) (10, 10)" g 50 50 0 0]
      demo_session_facts by (simp add: snap_Num)
qed

text \<open>
  C25. \<open>expandBounds\<close> of points inside \<open>[-28, 28]\<^sup>2\<close> is a non-degenerate box that
  holds every point with a margin of at least 2 on each side.
\<close>

theorem expandBounds_contains:
  assumes "pts \<noteq> []" and "\<forall>p\<in>set pts. \<bar>fst p\<bar> \<le> 28 \<and> \<bar>snd p\<bar> \<le> 28"
  shows "xMin (expandBounds pts) < xMax (expandBounds pts) \<and> yMin (expandBounds pts) < yMax (expandBounds pts)
     \<and> (\<forall>p\<in>set pts. xMin (expandBounds pts) + 2 \<le> fst p \<and> fst p + 2 \<le> xMax (expandBounds pts)
                   \<and> yMin (expandBounds pts) + 2 \<le> snd p \<and> snd p + 2 \<le> yMax (expandBounds pts))"
proof -
  let ?xs = "set (map fst pts)" and ?ys = "set (map snd pts)"
  have ne: "?xs \<noteq> {}" "?ys \<noteq> {}" "finite ?xs" "finite ?ys" using assms(1) by simp_all
  have xin: "Min ?xs \<in> ?xs" "Max ?xs \<in> ?xs" and yin: "Min ?ys \<in> ?ys" "Max ?ys \<in> ?ys"
    using ne by simp_all
  then have r: "-28 \<le> Min ?xs" "Max ?xs \<le> 28" "-28 \<le> Min ?ys" "Max ?ys \<le> 28" "Min ?xs \<le> Max ?xs" "Min ?ys \<le> Max ?ys"
    using assms(2) ne by (fastforce simp: abs_le_iff)+
  define padX where "padX = (Max ?xs - Min ?xs) * (2 / 10) + 2"
  define padY where "padY = (Max ?ys - Min ?ys) * (2 / 10) + 2"
  have p: "2 \<le> padX" "2 \<le> padY" using r by (simp_all add: padX_def padY_def)
  have b: "expandBounds pts = \<lparr>xMin = max (-30) (of_int \<lfloor>Min ?xs - padX\<rfloor>), xMax = min 30 (of_int \<lceil>Max ?xs + padX\<rceil>),
               yMin = max (-30) (of_int \<lfloor>Min ?ys - padY\<rfloor>), yMax = min 30 (of_int \<lceil>Max ?ys + padY\<rceil>)\<rparr>"
    using assms(1) by (simp add: expandBounds_def padX_def padY_def Let_def)
  have lo: "max (-30) (of_int \<lfloor>Min ?xs - padX\<rfloor>) + 2 \<le> Min ?xs" "max (-30) (of_int \<lfloor>Min ?ys - padY\<rfloor>) + 2 \<le> Min ?ys"
    using r p by linarith+
  have hi: "Max ?xs + 2 \<le> min 30 (of_int \<lceil>Max ?xs + padX\<rceil>)" "Max ?ys + 2 \<le> min 30 (of_int \<lceil>Max ?ys + padY\<rceil>)"
    using r p by linarith+
  have sel: "xMin (expandBounds pts) = max (-30) (of_int \<lfloor>Min ?xs - padX\<rfloor>)"
    "xMax (expandBounds pts) = min 30 (of_int \<lceil>Max ?xs + padX\<rceil>)"
    "yMin (expandBounds pts) = max (-30) (of_int \<lfloor>Min ?ys - padY\<rfloor>)"
    "yMax (expandBounds pts) = min 30 (of_int \<lceil>Max ?ys + padY\<rceil>)"
    by (simp_all add: b)
  have "\<forall>p\<in>set pts. xMin (expandBounds pts) + 2 \<le> fst p \<and> fst p + 2 \<le> xMax (expandBounds pts)
                   \<and> yMin (expandBounds pts) + 2 \<le> snd p \<and> snd p + 2 \<le> yMax (expandBounds pts)"
  proof
    fix p assume "p \<in> set pts"
    then have "Min ?xs \<le> fst p" "fst p \<le> Max ?xs" "Min ?ys \<le> snd p" "snd p \<le> Max ?ys"
      using ne by simp_all
    with lo hi show "xMin (expandBounds pts) + 2 \<le> fst p \<and> fst p + 2 \<le> xMax (expandBounds pts)
                   \<and> yMin (expandBounds pts) + 2 \<le> snd p \<and> snd p + 2 \<le> yMax (expandBounds pts)"
      unfolding sel by linarith
  qed
  moreover have "xMin (expandBounds pts) < xMax (expandBounds pts)" "yMin (expandBounds pts) < yMax (expandBounds pts)"
    using lo hi r unfolding sel by linarith+
  ultimately show ?thesis by blast
qed

theorem expandBounds_contains_witness:
  "([(3, -7), (5, 2)] :: point list) \<noteq> [] \<and> \<bar>3\<bar> \<le> (28::real) \<and> \<bar>-7\<bar> \<le> (28::real)
     \<and> \<bar>5\<bar> \<le> (28::real) \<and> \<bar>2\<bar> \<le> (28::real)
     \<and> xMin (expandBounds ([(3, -7), (5, 2)] :: point list)) < xMax (expandBounds ([(3, -7), (5, 2)] :: point list))"
  using expandBounds_contains [of "([(3, -7), (5, 2)] :: point list)"] by simp

text \<open>
  C26. Beyond that range the clamp to \<open>[-30, 30]\<close> inverts the box: for every
  non-empty list of points whose x coordinates lie in an interval \<open>[lo, hi]\<close> far
  enough right (\<open>33 \<le> lo - (hi - lo) / 5\<close>, for instance all of \<open>[35, 40]\<close>), the
  result has \<open>xMax < xMin\<close>, bounds the transform would accept.
\<close>

theorem expandBounds_inverted:
  assumes "pts \<noteq> []" and "\<forall>p\<in>set pts. lo \<le> fst p \<and> fst p \<le> hi" and "33 \<le> lo - (hi - lo) / 5"
  shows "xMax (expandBounds pts) < xMin (expandBounds pts)"
proof -
  let ?xs = "set (map fst pts)"
  have ne: "?xs \<noteq> {}" "finite ?xs" using assms(1) by simp_all
  then have "Min ?xs \<in> ?xs" "Max ?xs \<in> ?xs" by simp_all
  then have r: "lo \<le> Min ?xs" "Max ?xs \<le> hi" using assms(2) by auto
  define padX where "padX = (Max ?xs - Min ?xs) * (2 / 10) + 2"
  have "padX \<le> (hi - lo) / 5 + 2" using r by (simp add: padX_def)
  then have "31 \<le> Min ?xs - padX" using r assms(3) by linarith
  then have "(31::int) \<le> \<lfloor>Min ?xs - padX\<rfloor>" by (simp add: le_floor_iff)
  then have "31 \<le> (of_int \<lfloor>Min ?xs - padX\<rfloor> :: real)" by linarith
  then have "31 \<le> max (-30) (of_int \<lfloor>Min ?xs - padX\<rfloor> :: real)" by linarith
  moreover have "min 30 (of_int \<lceil>Max ?xs + padX\<rceil>) \<le> (30::real)" by simp
  moreover have "xMin (expandBounds pts) = max (-30) (of_int \<lfloor>Min ?xs - padX\<rfloor>)"
    "xMax (expandBounds pts) = min 30 (of_int \<lceil>Max ?xs + padX\<rceil>)"
    using assms(1) by (simp_all add: expandBounds_def padX_def Let_def)
  ultimately show ?thesis by linarith
qed

theorem expandBounds_inverted_witness:
  "([(40, 0)] :: point list) \<noteq> [] \<and> (35::real) \<le> 40 \<and> (40::real) \<le> 40 \<and> 33 \<le> (35::real) - (40 - 35) / 5
     \<and> xMax (expandBounds [(40, 0)]) < xMin (expandBounds [(40, 0)])"
  using expandBounds_inverted [of "[(40, 0)]" 35 40] by simp

end
