(* ===== verification/Spec2Isabelle.thy ===== *)
theory Spec2Isabelle
  imports Session
begin

text \<open>
  \<^bold>\<open>A verification library for the vector practice app (src/app.js).\<close>

  The program is one browser script. A numeric sampler (\<open>rand.int\<close>, \<open>rand.float\<close>,
  \<open>choice\<close>, \<open>difficultyRanges\<close>, \<open>rndNum\<close>, lines 20--46) feeds two question generators
  (\<open>generators\<close>, lines 172--200) that build a prompt, an answer, an explanation and
  a drawing. A graph object (\<open>Graph.create\<close>, lines 58--169) maps world points to
  canvas pixels and back and renders grids, points and arrows. A tolerance comparator
  (\<open>nearlyEqual\<close>, \<open>pairEqual\<close>, lines 48--55) judges answers. The quiz session
  (lines 202--370) holds the score and the current question and wires them together in
  the handlers of the Next, Submit and Reveal buttons, the Enter key, canvas clicks and
  window resizes.

  \<^bold>\<open>Theories and what they model.\<close>
  \<^item> \<open>Prelude\<close>: the shared types (\<open>point\<close>, the random source \<open>rng\<close>, a stream of
    reals) and lemmas on floors and on valid random sources.
  \<^item> \<open>JsNum\<close>: JavaScript Numbers as the datatype \<open>jsnum\<close> (a finite real, \<open>NaN\<close>, or
    an infinity) with the arithmetic the program uses, so that division by zero and
    comparisons with \<open>NaN\<close> behave as in the source; \<open>toFixed\<close> as \<open>to_fixed\<close>.
  \<^item> \<open>NumText\<close>: \<open>String(x)\<close> (Number::toString) as \<open>js_to_string\<close> and \<open>parseFloat\<close>;
    integers and halves print as their digits and read back exactly.
  \<^item> \<open>Tolerance\<close>: \<open>nearlyEqual\<close>, \<open>pairEqual\<close>, and the tolerance \<open>1e-2\<close> of
    \<open>checkAnswer\<close>.
  \<^item> \<open>Sampler\<close>: \<open>Math.random\<close> is the state of a \<open>State_Monad\<close> computation over a
    stream of values in \<open>[0, 1)\<close>; \<open>rand_int\<close>, \<open>rand_float\<close>, \<open>choice\<close>,
    \<open>difficultyRanges\<close>, \<open>rndNum\<close> consume it one value at a time.
  \<^item> \<open>Questions\<close>: the question object as a record, both generators with their
    prompt and explanation text (UTF-8 bytes for the angle brackets), \<open>fmtPoint\<close>,
    \<open>fmtVector\<close>, and the registry \<open>generators\<close>.
  \<^item> \<open>Graph\<close>: the closure state of \<open>Graph.create\<close> as the record \<open>graph\<close>; the canvas
    context is a log of drawing commands (\<open>canvas_op\<close>), so that \<open>renderScene\<close>,
    \<open>drawGrid\<close>, \<open>drawPoint\<close> and \<open>drawArrow\<close> are functions that append to it. The
    grid's \<open>for\<close> loops are \<open>partial_function (option)\<close> and proved to return.
  \<^item> \<open>Session\<close>: the \<open>state\<close> object and the page text the handlers write as the record
    \<open>app\<close>; \<open>nextQuestion\<close>, \<open>checkAnswer\<close>, \<open>revealSolution\<close>, the click handler,
    \<open>drawQuestionGraph\<close>, \<open>expandBounds\<close> and start-up (\<open>initGraph\<close>); the event
    wiring as \<open>app_step\<close> on the datatype \<open>event\<close> (the user typing into a field is an
    event too); the reachable sessions as the inductive predicate \<open>reachable\<close>.
    A handler that throws returns its exception beside the state at the throw, as the
    page keeps running after it.

  \<^bold>\<open>What is proved.\<close> Per component: the comparator's exact meaning over JavaScript
  Numbers, for scalars and pairs; the exact preimage of each value of \<open>rand.int\<close>
  (uniformity), the range of \<open>rand.float\<close>, the silent acceptance of an inverted
  range, \<open>choice\<close> on the empty array; that the generators' answers are exact
  (\<open>P + v\<close>, and \<open>P + v = Q\<close>) and consistent with their drawings, and that the
  inverse question hides its unknown; that \<open>worldToScreen\<close> and \<open>screenToWorld\<close> are
  mutually inverse for non-degenerate bounds, that degenerate bounds are accepted and
  give \<open>NaN\<close>/\<open>Infinity\<close>, that the grid loop terminates and draws exactly the
  multiples of the step, the arrowhead's size and orientation, and when \<open>resize\<close> is
  and is not idempotent (on a hidden canvas \<open>k\<close> resizes multiply the buffer width by
  \<open>m^k\<close>); and that \<open>expandBounds\<close> pads points of \<open>[-28, 28]\<^sup>2\<close> correctly but
  inverts the box for points far to the right. For the session: the invariant
  \<open>app_inv\<close> of every reachable session (by rule induction over \<open>reachable\<close>, one
  preservation lemma per handler), that the session refines the abstract scoreboard
  \<open>score_spec\<close> (a functional simulation through \<open>score_of\<close>), that Next always
  returns without throwing, and the end-to-end answering paths: typing the answer,
  clicking it when it is on the canvas, reading a click back, empty fields, revealing
  the solution, the early returns without a question, and the answers that no click
  on the canvas can reach. A canvas click is an event only for a pixel inside the
  canvas box (\<open>on_canvas\<close>), as the browser delivers it.

  \<^bold>\<open>Modelling choices and bounds.\<close> Numbers are exact reals: the theorems hold for
  the real-number semantics of the code and say nothing about rounding errors of
  doubles (signed zero and overflow are not modelled). The random source is any
  stream of values in \<open>[0, 1)\<close>, so every theorem holds for every sequence of random
  values. Number printing is exact for values with at most 20 decimals, which covers
  every value the program prints (multiples of \<open>10^-3\<close> and of \<open>1/2\<close>); the round
  trips are stated for magnitudes below \<open>10^20\<close>, far beyond the \<open>[-30, 30]\<close> the
  program uses. The grid loop needs no fuel: its termination is proved from the
  positive step.

  \<^bold>\<open>Not modelled.\<close> The DOM itself (element lookup, markup, labels, CSS classes
  beyond the feedback class) and the registration of event listeners, which are
  browser I/O: only the values and text the handlers read and write are modelled. The
  number input's sanitisation of typed text is not modelled (typing sets the text).
  The scalar answer branch of \<open>getUserAnswer\<close> and \<open>checkAnswer\<close> is modelled but no
  generator produces scalar questions.
\<close>

end
